theory Spec2Isabelle
  imports Complex_Main
begin

section \<open>Common data\<close>

text \<open>
  Coordinates are Python and torch floats; they are modelled as real numbers, so
  floating-point rounding is left out.  A box is the \<open>xyxy\<close> row of the tracker,
  a point a pair \<open>(x, y)\<close>.  Class ids arrive as integral floats and index the
  \<open>names\<close> dictionary, whose keys are Python ints; they are modelled as integers.
\<close>

type_synonym point = "real \<times> real"
type_synonym box = "real \<times> real \<times> real \<times> real"

text \<open>
  An image is known to this code only through its shape \<open>(rows, columns)\<close>; the
  pixels are drawn on by cv2 and the Annotator, which are outside the repository.
\<close>

type_synonym image = "nat \<times> nat"

text \<open>
  The exceptions the two modules can raise.  A \<open>KeyError\<close> and a \<open>NameError\<close>
  carry the dictionary (respectively the name) whose lookup failed, as the traceback
  line shows it, and a \<open>KeyError\<close> the missing key as well.  \<open>Cv2Error\<close> is
  \<open>cv2.error\<close>.
\<close>

datatype py_key = IntKey int | StrKey string

datatype py_error =
    NameError string
  | KeyError string py_key
  | IndexError
  | TypeError
  | AttributeError string
  | GEOSException
  | OverflowError
  | Cv2Error

text \<open>
  What the code reads of \<open>tracks[0].boxes\<close>, together with the frame itself:
  \<open>ids\<close> is \<open>boxes.id\<close> (\<open>None\<close> when the tracker assigned no ids),
  \<open>xyxy\<close> and \<open>clss\<close> are \<open>boxes.xyxy\<close> and \<open>boxes.cls\<close>, and \<open>key\<close> is
  what \<open>cv2.waitKey(1)\<close> returns while the frame is shown.
\<close>

record frame =
  im0 :: image
  ids :: "int list option"
  xyxy :: "box list"
  clss :: "int list"
  key :: int

definition bbox_center :: "box \<Rightarrow> point" where
  "bbox_center b = (case b of (x1, y1, x2, y2) \<Rightarrow> ((x1 + x2) / 2, (y1 + y2) / 2))"

text \<open>
  \<open>track.append(c); if len(track) > 30: track.pop(0)\<close>, the history update both
  classes perform.
\<close>

definition append_bounded :: "point list \<Rightarrow> point \<Rightarrow> point list" where
  "append_bounded track c =
     (let track1 = track @ [c] in if length track1 > 30 then tl track1 else track1)"

text \<open>\<open>cv2.waitKey(1) & 0xFF == ord("q")\<close>\<close>

definition pressed_q :: "int \<Rightarrow> bool" where
  "pressed_q k = (k mod 256 = 113)"

section \<open>speed\_estimation.py\<close>

text \<open>
  The fields of \<open>SpeedEstimator\<close> that the computation reads or writes (\<open>tf\<close> only
  sets a drawing width and \<open>current_time\<close> is never used).  \<open>ticks\<close> is a ghost
  field: the number of calls of \<open>time()\<close> made so far; the \<open>n\<close>-th call returns
  \<open>clock n\<close>, where \<open>clock\<close> is a parameter of the functions below.
\<close>

record speed_estimator =
  view_img :: bool
  reg_pts :: "point list"
  names :: "int \<rightharpoonup> string"
  trk_history :: "int \<rightharpoonup> point list"
  spd :: "int \<rightharpoonup> real"
  trkd_ids :: "int list"
  spdl :: real
  trk_pt :: "int \<rightharpoonup> real"
  trk_pp :: "int \<rightharpoonup> point"
  env_check :: bool
  ticks :: nat

text \<open>\<open>SpeedEstimator.__init__\<close>; \<open>envc\<close> is the result of \<open>check_imshow\<close>.\<close>

definition SpeedEstimator_init ::
  "(int \<rightharpoonup> string) \<Rightarrow> point list option \<Rightarrow> bool \<Rightarrow> real \<Rightarrow> bool \<Rightarrow> speed_estimator" where
  "SpeedEstimator_init nms pts view thresh envc =
     \<lparr> view_img = view,
       reg_pts = (case pts of Some ps \<Rightarrow> ps | None \<Rightarrow> [(20, 400), (1260, 400)]),
       names = nms,
       trk_history = Map.empty,
       spd = Map.empty,
       trkd_ids = [],
       spdl = thresh,
       trk_pt = Map.empty,
       trk_pp = Map.empty,
       env_check = envc,
       ticks = 0 \<rparr>"

text \<open>
  Lines 72--73 of \<open>calculate_speed\<close>: the sample time and position are stored
  whatever happened before.
\<close>

definition store_sample ::
  "(nat \<Rightarrow> real) \<Rightarrow> int \<Rightarrow> point \<Rightarrow> speed_estimator \<Rightarrow> speed_estimator" where
  "store_sample clock trk_id cur s =
     s\<lparr> trk_pt := (trk_pt s)(trk_id \<mapsto> clock (ticks s)),
        trk_pp := (trk_pp s)(trk_id \<mapsto> cur),
        ticks := Suc (ticks s) \<rparr>"

text \<open>Lines 58--63: is the latest y within \<open>spdl\<close> of either reference y?\<close>

definition direction_known :: "speed_estimator \<Rightarrow> point \<Rightarrow> point \<Rightarrow> point \<Rightarrow> bool" where
  "direction_known s p0 p1 cur =
     (if snd p1 - spdl s < snd cur \<and> snd cur < snd p1 + spdl s then True
      else if snd p0 - spdl s < snd cur \<and> snd cur < snd p0 + spdl s then True
      else False)"

text \<open>
  Lines 65--70, entered once the guard of line 65 has passed: the id is appended
  to \<open>trkd_ids\<close>, \<open>time()\<close> is read, and then \<open>trk_pt[trk_id]\<close> and, when the
  difference is positive, \<open>trk_pp[trk_id]\<close> are subscripted.  A failing subscript
  raises after the append, so the append stays.
\<close>

definition finalize_speed ::
  "(nat \<Rightarrow> real) \<Rightarrow> int \<Rightarrow> point \<Rightarrow> speed_estimator \<Rightarrow> py_error option \<times> speed_estimator" where
  "finalize_speed clock trk_id cur s =
     (let s1 = s\<lparr> trkd_ids := trkd_ids s @ [trk_id] \<rparr>;
          now = clock (ticks s1);
          s2 = s1\<lparr> ticks := Suc (ticks s1) \<rparr>
      in (case trk_pt s2 trk_id of
            None \<Rightarrow> (Some (KeyError ''trk_pt'' (IntKey trk_id)), s2)
          | Some t0 \<Rightarrow>
              let time_difference = now - t0 in
              if time_difference > 0 then
                (case trk_pp s2 trk_id of
                   None \<Rightarrow> (Some (KeyError ''trk_pp'' (IntKey trk_id)), s2)
                 | Some pp \<Rightarrow>
                     (None, store_sample clock trk_id cur
                        (s2\<lparr> spd := (spd s2)(trk_id \<mapsto> \<bar>snd cur - snd pp\<bar> / time_difference) \<rparr>)))
              else (None, store_sample clock trk_id cur s2)))"

text \<open>
  \<open>SpeedEstimator.calculate_speed\<close>.  The result is the exception raised, if any,
  and the object as the call leaves it.  The chained comparison of line 56 reads
  \<open>reg_pts[0]\<close>, then \<open>track[-1]\<close>, and \<open>reg_pts[1]\<close> only when the first
  comparison holds.
\<close>

definition calculate_speed ::
  "(nat \<Rightarrow> real) \<Rightarrow> int \<Rightarrow> point list \<Rightarrow> speed_estimator \<Rightarrow> py_error option \<times> speed_estimator" where
  "calculate_speed clock trk_id track s =
     (case reg_pts s of
        [] \<Rightarrow> (Some IndexError, s)
      | p0 # rest \<Rightarrow>
          if track = [] then (Some IndexError, s)
          else
            let cur = last track in
            if \<not> fst p0 < fst cur then (None, s)
            else
              (case rest of
                 [] \<Rightarrow> (Some IndexError, s)
               | p1 # _ \<Rightarrow>
                   if \<not> fst cur < fst p1 then (None, s)
                   else if trk_pt s trk_id \<noteq> Some 0 \<and> direction_known s p0 p1 cur
                           \<and> trk_id \<notin> set (trkd_ids s)
                   then finalize_speed clock trk_id cur s
                   else (None, store_sample clock trk_id cur s)))"

text \<open>
  The speed label of line 110.  It is only drawn, but its subscripts can raise.
  \<open>track_id\<close> is the value the name \<open>track_id\<close> is bound to.
\<close>

definition speed_label ::
  "speed_estimator \<Rightarrow> int \<Rightarrow> int \<Rightarrow> int \<Rightarrow> py_error + string" where
  "speed_label s track_id trk_id cls =
     (if track_id \<in> dom (spd s) then
        (case spd s trk_id of
           None \<Rightarrow> Inl (KeyError ''spd'' (IntKey trk_id))
         | Some v \<Rightarrow> Inr ''km/h'')
      else
        (case names s cls of
           None \<Rightarrow> Inl (KeyError ''names'' (IntKey cls))
         | Some nm \<Rightarrow> Inr nm))"

text \<open>
  The body of the loop of \<open>estimate_speed\<close> (lines 98--116) for one
  \<open>(box, trk_id, cls)\<close>.  The loop variable is \<open>trk_id\<close>, but lines 98 and 110
  read the name \<open>track_id\<close>, which the function never assigns; Python looks it
  up among the module's globals.  \<open>g\<close> is that global binding: \<open>None\<close> when the
  module defines no \<open>track_id\<close>, as is the case for the file as written (its
  globals are the imports, the class, \<open>names\<close> and \<open>speed_estimator\<close>).
\<close>

definition speed_detection ::
  "int option \<Rightarrow> (nat \<Rightarrow> real) \<Rightarrow> speed_estimator \<Rightarrow> box \<times> int \<times> int
     \<Rightarrow> py_error option \<times> speed_estimator" where
  "speed_detection g clock s d =
     (case d of (box, trk_id, cls) \<Rightarrow>
        (case g of
           None \<Rightarrow> (Some (NameError ''track_id''), s)
         | Some track_id \<Rightarrow>
             let track = append_bounded
                           (case trk_history s track_id of None \<Rightarrow> [] | Some t \<Rightarrow> t)
                           (bbox_center box);
                 s1 = s\<lparr> trk_history := (trk_history s)(track_id \<mapsto> track) \<rparr>;
                 s2 = (if trk_id \<in> dom (trk_pt s1) then s1
                       else s1\<lparr> trk_pt := (trk_pt s1)(trk_id \<mapsto> 0) \<rparr>)
             in (case speed_label s2 track_id trk_id cls of
                   Inl e \<Rightarrow> (Some e, s2)
                 | Inr lbl \<Rightarrow> calculate_speed clock trk_id track s2)))"

text \<open>The \<open>for\<close> loop of line 97: it stops at the first exception.\<close>

fun speed_loop ::
  "int option \<Rightarrow> (nat \<Rightarrow> real) \<Rightarrow> speed_estimator \<Rightarrow> (box \<times> int \<times> int) list
     \<Rightarrow> py_error option \<times> speed_estimator" where
  "speed_loop g clock s [] = (None, s)"
| "speed_loop g clock s (d # ds) =
     (case speed_detection g clock s d of
        (Some e, s') \<Rightarrow> (Some e, s')
      | (None, s') \<Rightarrow> speed_loop g clock s' ds)"

text \<open>
  \<open>SpeedEstimator.estimate_speed\<close>.  The result is an exception or the returned
  value (\<open>None\<close> for the bare \<open>return\<close> after the key q), and the object as the
  call leaves it.  With no ids and a window to show, line 88 calls
  \<open>self.display_frames\<close>, which the class does not define.
\<close>

definition estimate_speed ::
  "int option \<Rightarrow> (nat \<Rightarrow> real) \<Rightarrow> frame \<Rightarrow> speed_estimator
     \<Rightarrow> (py_error + image option) \<times> speed_estimator" where
  "estimate_speed g clock fr s =
     (case ids fr of
        None \<Rightarrow>
          if view_img s \<and> env_check s then (Inl (AttributeError ''display_frames''), s)
          else (Inr (Some (im0 fr)), s)
      | Some trk_ids \<Rightarrow>
          (case speed_loop g clock s (zip (xyxy fr) (zip trk_ids (clss fr))) of
             (Some e, s') \<Rightarrow> (Inl e, s')
           | (None, s') \<Rightarrow>
               if view_img s' \<and> env_check s' \<and> pressed_q (key fr) then (Inr None, s')
               else (Inr (Some (im0 fr)), s')))"

text \<open>
  A session: any sequence of calls of the two public methods.  An exception of one
  call is caught by the caller and the next call sees the object as it was left.
\<close>

datatype speed_call = Calculate_speed int "point list" | Estimate_speed frame

definition speed_call_step ::
  "int option \<Rightarrow> (nat \<Rightarrow> real) \<Rightarrow> speed_estimator \<Rightarrow> speed_call \<Rightarrow> speed_estimator" where
  "speed_call_step g clock s c =
     (case c of
        Calculate_speed trk_id track \<Rightarrow> snd (calculate_speed clock trk_id track s)
      | Estimate_speed fr \<Rightarrow> snd (estimate_speed g clock fr s))"

definition speed_session ::
  "int option \<Rightarrow> (nat \<Rightarrow> real) \<Rightarrow> speed_estimator \<Rightarrow> speed_call list \<Rightarrow> speed_estimator" where
  "speed_session g clock s cs = foldl (speed_call_step g clock) s cs"


section \<open>heatmap.py\<close>

subsection \<open>The shapely objects\<close>

text \<open>
  shapely is a library outside the repository.  A geometry is represented by the
  coordinate list it was built from.  The predicates the code calls on geometries
  (\<open>contains\<close>, \<open>intersects\<close>, \<open>centroid.x\<close>) are a parameter of the model,
  a record of functions, so every theorem below that quantifies over \<open>lib\<close> holds
  whatever the library computes.
\<close>

datatype geometry = LineString "point list" | Polygon "point list"

record shapely =
  contains :: "geometry \<Rightarrow> point \<Rightarrow> bool"
  intersects :: "geometry \<Rightarrow> geometry \<Rightarrow> bool"
  centroid_x :: "geometry \<Rightarrow> real"

text \<open>
  The constructor call \<open>LineString(coordinates)\<close>.  shapely 2 (line 11 requires
  \<open>shapely>=2.0.0\<close>) builds an empty line from no coordinates and a line from two or
  more, and rejects exactly one coordinate with a \<open>GEOSException\<close> (``point array
  must contain 0 or >1 elements'').
\<close>

definition new_LineString :: "point list \<Rightarrow> py_error + geometry" where
  "new_LineString pts = (if length pts = 1 then Inl GEOSException else Inr (LineString pts))"

subsection \<open>The heat buffer\<close>

text \<open>
  \<open>self.heatmap\<close>: a \<open>rows \<times> cols\<close> array of floats, read through \<open>cell\<close>.
\<close>

record buffer =
  rows :: nat
  cols :: nat
  cell :: "nat \<Rightarrow> nat \<Rightarrow> real"

definition zeros :: "image \<Rightarrow> buffer" where
  "zeros shape = \<lparr> rows = fst shape, cols = snd shape, cell = (\<lambda>r c. 0) \<rparr>"

text \<open>\<open>self.heatmap *= self.decay_factor\<close>\<close>

definition decay :: "real \<Rightarrow> buffer \<Rightarrow> buffer" where
  "decay d b = b\<lparr> cell := (\<lambda>r c. cell b r c * d) \<rparr>"

text \<open>\<open>int(x)\<close> on a float truncates towards zero.\<close>

definition py_int :: "real \<Rightarrow> int" where
  "py_int x = (if 0 \<le> x then \<lfloor>x\<rfloor> else \<lceil>x\<rceil>)"

text \<open>
  A slice bound \<open>i\<close> on an axis of length \<open>n\<close>: a negative bound counts from the
  end, and the result is clipped to the axis.
\<close>

definition slice_bound :: "nat \<Rightarrow> int \<Rightarrow> int" where
  "slice_bound n i = (if i < 0 then max (i + int n) 0 else min i (int n))"

text \<open>
  The grids \<open>y, x\<close> of line 126 are numpy arrays of 64-bit integers.  In the
  arithmetic of line 127 a Python int is converted to that type, which raises
  \<open>OverflowError\<close> when it does not fit, and differences, squares and sums of array
  elements wrap around.
\<close>

definition in_int64 :: "int \<Rightarrow> bool" where
  "in_int64 i = (- (2 ^ 63) \<le> i \<and> i < 2 ^ 63)"

definition wrap_int64 :: "int \<Rightarrow> int" where
  "wrap_int64 i = (i + 2 ^ 63) mod 2 ^ 64 - 2 ^ 63"

text \<open>
  \<open>center\<close> of line 123: \<open>//\<close> on the tensor sum is floor division.
\<close>

definition box_centre :: "box \<Rightarrow> int \<times> int" where
  "box_centre bx = (case bx of (x1, y1, x2, y2) \<Rightarrow> (\<lfloor>(x1 + x2) / 2\<rfloor>, \<lfloor>(y1 + y2) / 2\<rfloor>))"

text \<open>Both coordinates of the centre fit the grids' integer type.\<close>

definition box_fits :: "box \<Rightarrow> bool" where
  "box_fits bx = (in_int64 (fst (box_centre bx)) \<and> in_int64 (snd (box_centre bx)))"

text \<open>
  \<open>mask[r, c]\<close> of line 127, for a centre that fits: the left-hand side is computed
  in 64 bits, the square of the radius is a Python int and the comparison is exact.
\<close>

definition in_disk :: "int \<times> int \<Rightarrow> int \<Rightarrow> nat \<Rightarrow> nat \<Rightarrow> bool" where
  "in_disk centre radius r c =
     (wrap_int64 (wrap_int64 ((wrap_int64 (int c - fst centre))\<^sup>2)
                  + wrap_int64 ((wrap_int64 (int r - snd centre))\<^sup>2))
        \<le> radius\<^sup>2)"

text \<open>
  Lines 129--131 (and 184--186): 2 is added to the cells of the slice
  \<open>[int(y1):int(y2), int(x1):int(x2)]\<close> that lie in the disk around the box
  centre; \<open>//\<close> on the Python ints of the radius is \<open>div\<close>.
\<close>

definition paint_box :: "buffer \<Rightarrow> box \<Rightarrow> buffer" where
  "paint_box b bx =
     (case bx of (x1, y1, x2, y2) \<Rightarrow>
        let centre = box_centre bx;
            radius = min (py_int x2 - py_int x1) (py_int y2 - py_int y1) div 2;
            r0 = slice_bound (rows b) (py_int y1);
            r1 = slice_bound (rows b) (py_int y2);
            c0 = slice_bound (cols b) (py_int x1);
            c1 = slice_bound (cols b) (py_int x2)
        in b\<lparr> cell := (\<lambda>r c.
               cell b r c +
                 (if r0 \<le> int r \<and> int r < r1 \<and> c0 \<le> int c \<and> int c < c1
                     \<and> in_disk centre radius r c
                  then 2 else 0)) \<rparr>)"

text \<open>
  Lines 123--131 (and 178--186) for one box: a centre that does not fit raises at
  line 127 and leaves the buffer as it is.
\<close>

definition add_box :: "buffer \<Rightarrow> box \<Rightarrow> py_error + buffer" where
  "add_box b bx = (if box_fits bx then Inr (paint_box b bx) else Inl OverflowError)"

subsection \<open>The Heatmap object\<close>

text \<open>
  The fields of \<open>Heatmap\<close> that the computation reads or writes; the annotator,
  colormap, alpha and line thickness only feed the drawing calls.  The fields
  \<open>view_img\<close>, \<open>names\<close> and \<open>env_check\<close> carry the prefix \<open>hm_\<close> here, the plain
  names being those of the speed estimator.  A per-class bucket
  \<open>{"IN": i, "OUT": o}\<close> is the pair \<open>(i, o)\<close>.
\<close>

record heatmap_obj =
  hm_view_img :: bool
  initialized :: bool
  hm_names :: "int \<rightharpoonup> string"
  heatmap :: "buffer option"
  track_history :: "int \<rightharpoonup> point list"
  counting_region :: "geometry option"
  in_counts :: int
  out_counts :: int
  count_ids :: "int list"
  class_wise_count :: "string \<rightharpoonup> int \<times> int"
  decay_factor :: real
  hm_env_check :: bool
  counting_line_segment :: "geometry option"
  count_reg_pts :: "point list option"

text \<open>
  \<open>Heatmap.__init__\<close>: the lines printed, and the object or the exception that
  ends the construction.  \<open>envc\<close> is the result of \<open>check_imshow\<close>.
\<close>

definition Heatmap_init ::
  "(int \<rightharpoonup> string) \<Rightarrow> bool \<Rightarrow> point list option \<Rightarrow> real \<Rightarrow> bool
     \<Rightarrow> string list \<times> (py_error + heatmap_obj)" where
  "Heatmap_init nms view pts dec envc =
     (let h = \<lparr> hm_view_img = view, initialized = False, hm_names = nms, heatmap = None,
                track_history = Map.empty, counting_region = None,
                in_counts = 0, out_counts = 0, count_ids = [],
                class_wise_count = Map.empty, decay_factor = dec, hm_env_check = envc,
                counting_line_segment = None, count_reg_pts = pts \<rparr>
      in case pts of
           None \<Rightarrow> ([], Inr h)
         | Some ps \<Rightarrow>
             if length ps = 2 then
               (''Line Counter Initiated.'' # [],
                case new_LineString ps of
                  Inl e \<Rightarrow> Inl e
                | Inr region \<Rightarrow>
                    (case new_LineString [ps ! 0, ps ! 1] of
                       Inl e \<Rightarrow> Inl e
                     | Inr segment \<Rightarrow>
                         Inr (h\<lparr> counting_region := Some region,
                                 counting_line_segment := Some segment \<rparr>)))
             else if length ps \<ge> 3 then
               (''Polygon Counter Initiated.'' # [],
                Inr (h\<lparr> counting_region := Some (Polygon ps) \<rparr>))
             else
               (''Invalid Region points provided, region_points must be 2 for lines or >= 3 for polygons.''
                  # ''Using Line Counter Now'' # [],
                case new_LineString ps of
                  Inl e \<Rightarrow> Inl e
                | Inr region \<Rightarrow> Inr (h\<lparr> counting_region := Some region \<rparr>)))"

text \<open>
  \<open>self.class_wise_count[name]["IN"] += 1\<close> and its \<open>"OUT"\<close> twin.
\<close>

definition bump_in :: "heatmap_obj \<Rightarrow> string \<Rightarrow> py_error option \<times> heatmap_obj" where
  "bump_in s nm =
     (case class_wise_count s nm of
        None \<Rightarrow> (Some (KeyError ''class_wise_count'' (StrKey nm)), s)
      | Some io \<Rightarrow>
          (None, s\<lparr> class_wise_count := (class_wise_count s)(nm \<mapsto> (fst io + 1, snd io)) \<rparr>))"

definition bump_out :: "heatmap_obj \<Rightarrow> string \<Rightarrow> py_error option \<times> heatmap_obj" where
  "bump_out s nm =
     (case class_wise_count s nm of
        None \<Rightarrow> (Some (KeyError ''class_wise_count'' (StrKey nm)), s)
      | Some io \<Rightarrow>
          (None, s\<lparr> class_wise_count := (class_wise_count s)(nm \<mapsto> (fst io, snd io + 1)) \<rparr>))"

text \<open>
  Lines 147--154 and 163--174, the same in both modes: the id is appended to
  \<open>count_ids\<close> and the direction test picks the counters to increment.  \<open>x1\<close> is
  \<open>box[0]\<close> and \<open>prev\<close> is \<open>prev_position\<close>.
\<close>

definition record_count ::
  "shapely \<Rightarrow> heatmap_obj \<Rightarrow> real \<Rightarrow> string \<Rightarrow> int \<Rightarrow> point \<Rightarrow> py_error option \<times> heatmap_obj" where
  "record_count lib s x1 nm track_id prev =
     (let s1 = s\<lparr> count_ids := count_ids s @ [track_id] \<rparr>
      in case counting_region s1 of
           None \<Rightarrow> (Some (AttributeError ''centroid''), s1)
         | Some region \<Rightarrow>
             if (x1 - fst prev) * (centroid_x lib region - fst prev) > 0
             then bump_in (s1\<lparr> in_counts := in_counts s1 + 1 \<rparr>) nm
             else bump_out (s1\<lparr> out_counts := out_counts s1 + 1 \<rparr>) nm)"

text \<open>
  Lines 141--174: the counting step for one detection, after the history update.
  \<open>cur\<close> is \<open>track_line[-1]\<close>.
\<close>

definition count_step ::
  "shapely \<Rightarrow> heatmap_obj \<Rightarrow> box \<Rightarrow> string \<Rightarrow> int \<Rightarrow> point \<Rightarrow> point option
     \<Rightarrow> py_error option \<times> heatmap_obj" where
  "count_step lib s bx nm track_id cur prev_position =
     (case bx of (x1, y1, x2, y2) \<Rightarrow>
        (case count_reg_pts s of
           None \<Rightarrow> (None, s)
         | Some pts \<Rightarrow>
             if length pts \<ge> 3 then
               (case counting_region s of
                  None \<Rightarrow> (Some (AttributeError ''contains''), s)
                | Some region \<Rightarrow>
                    (case prev_position of
                       None \<Rightarrow> (None, s)
                     | Some prev \<Rightarrow>
                         if contains lib region cur \<and> track_id \<notin> set (count_ids s)
                         then record_count lib s x1 nm track_id prev
                         else (None, s)))
             else if length pts = 2 then
               (case prev_position of
                  None \<Rightarrow> (None, s)
                | Some prev \<Rightarrow>
                    if track_id \<notin> set (count_ids s) then
                      (case counting_line_segment s of
                         None \<Rightarrow> (Some TypeError, s)
                       | Some segment \<Rightarrow>
                           if intersects lib (LineString [prev, (x1, y1)]) segment
                           then record_count lib s x1 nm track_id prev
                           else (None, s))
                    else (None, s))
             else (None, s)))"

text \<open>
  The body of the loop of line 118 for one \<open>(box, cls, track_id)\<close>.  An exception
  of line 127 comes after the class bucket of line 121 and before the history
  update of line 135.
\<close>

definition heatmap_detection ::
  "shapely \<Rightarrow> heatmap_obj \<Rightarrow> box \<times> int \<times> int \<Rightarrow> py_error option \<times> heatmap_obj" where
  "heatmap_detection lib s d =
     (case d of (bx, cls, track_id) \<Rightarrow>
        (case hm_names s cls of
           None \<Rightarrow> (Some (KeyError ''names'' (IntKey cls)), s)
         | Some nm \<Rightarrow>
             let s1 = (if nm \<in> dom (class_wise_count s) then s
                       else s\<lparr> class_wise_count := (class_wise_count s)(nm \<mapsto> (0, 0)) \<rparr>)
             in (case heatmap s1 of
                   None \<Rightarrow> (Some (AttributeError ''shape''), s1)
                 | Some hm \<Rightarrow>
                     (case add_box hm bx of
                        Inl e \<Rightarrow> (Some e, s1)
                      | Inr hm' \<Rightarrow>
                          let s2 = s1\<lparr> heatmap := Some hm' \<rparr>;
                              track_line = append_bounded
                                 (case track_history s2 track_id of None \<Rightarrow> [] | Some t \<Rightarrow> t)
                                 (bbox_center bx);
                              s3 = s2\<lparr> track_history :=
                                        (track_history s2)(track_id \<mapsto> track_line) \<rparr>;
                              prev_position =
                                (if length track_line > 1
                                 then Some (track_line ! (length track_line - 2)) else None)
                          in count_step lib s3 bx nm track_id (last track_line)
                               prev_position))))"

text \<open>The loop of line 118: it stops at the first exception.\<close>

fun heatmap_loop ::
  "shapely \<Rightarrow> heatmap_obj \<Rightarrow> (box \<times> int \<times> int) list \<Rightarrow> py_error option \<times> heatmap_obj" where
  "heatmap_loop lib s [] = (None, s)"
| "heatmap_loop lib s (d # ds) =
     (case heatmap_detection lib s d of
        (Some e, s') \<Rightarrow> (Some e, s')
      | (None, s') \<Rightarrow> heatmap_loop lib s' ds)"

text \<open>The loop of line 177, over boxes that carry no track id.\<close>

fun untracked_loop :: "heatmap_obj \<Rightarrow> (box \<times> int) list \<Rightarrow> py_error option \<times> heatmap_obj" where
  "untracked_loop s [] = (None, s)"
| "untracked_loop s (d # ds) =
     (case heatmap s of
        None \<Rightarrow> (Some (AttributeError ''shape''), s)
      | Some hm \<Rightarrow>
          (case add_box hm (fst d) of
             Inl e \<Rightarrow> (Some e, s)
           | Inr hm' \<Rightarrow> untracked_loop (s\<lparr> heatmap := Some hm' \<rparr>) ds))"

text \<open>
  Line 200: \<open>cv2.addWeighted\<close> blends the frame with the coloured buffer and
  rejects two arrays of different sizes, so the frame must have the shape of the
  buffer, which is that of the first frame.  The other drawing calls of lines
  109--116 and 188--199 are taken to succeed.
\<close>

definition frame_fits :: "frame \<Rightarrow> heatmap_obj \<Rightarrow> bool" where
  "frame_fits fr s =
     (case heatmap s of None \<Rightarrow> False | Some hm \<Rightarrow> (rows hm, cols hm) = im0 fr)"

text \<open>
  \<open>Heatmap.generate_heatmap\<close>: the exception or the returned value (\<open>None\<close> for
  the bare \<open>return\<close> after the key q), and the object as the call leaves it.
  When \<open>boxes.id\<close> is \<open>None\<close>, the names \<open>boxes\<close>, \<open>clss\<close> and \<open>track_ids\<close>
  stay \<open>None\<close>, the test of line 111 fails and line 177 calls
  \<open>zip(None, None)\<close>, a \<open>TypeError\<close>.
\<close>

definition generate_heatmap ::
  "shapely \<Rightarrow> frame \<Rightarrow> heatmap_obj \<Rightarrow> (py_error + image option) \<times> heatmap_obj" where
  "generate_heatmap lib fr s =
     (let s0 = (if initialized s then s
                else s\<lparr> heatmap := Some (zeros (im0 fr)), initialized := True \<rparr>)
      in case heatmap s0 of
           None \<Rightarrow> (Inl TypeError, s0)
         | Some hm \<Rightarrow>
             let s1 = s0\<lparr> heatmap := Some (decay (decay_factor s0) hm) \<rparr>
             in (case ids fr of
                   None \<Rightarrow> (Inl TypeError, s1)
                 | Some track_ids \<Rightarrow>
                     (case (if track_ids \<noteq> []
                            then heatmap_loop lib s1 (zip (xyxy fr) (zip (clss fr) track_ids))
                            else untracked_loop s1 (zip (xyxy fr) (clss fr))) of
                        (Some e, s2) \<Rightarrow> (Inl e, s2)
                      | (None, s2) \<Rightarrow>
                          if frame_fits fr s2 then
                            if hm_env_check s2 \<and> hm_view_img s2 \<and> pressed_q (key fr)
                            then (Inr None, s2)
                            else (Inr (Some (im0 fr)), s2)
                          else (Inl Cv2Error, s2))))"

text \<open>
  A session: the frames of a stream, one call each; an exception is caught by the
  caller and the next frame sees the object as it was left.
\<close>

definition heatmap_session :: "shapely \<Rightarrow> heatmap_obj \<Rightarrow> frame list \<Rightarrow> heatmap_obj" where
  "heatmap_session lib s frs = foldl (\<lambda>s fr. snd (generate_heatmap lib fr s)) s frs"

text \<open>A per-class counter read with the zeros of a bucket not yet created.\<close>

definition class_count :: "heatmap_obj \<Rightarrow> string \<Rightarrow> int \<times> int" where
  "class_count s nm = (case class_wise_count s nm of None \<Rightarrow> (0, 0) | Some io \<Rightarrow> io)"

section \<open>Auxiliary definitions\<close>

subsection \<open>Invariants and relations between states\<close>

text \<open>The state in which the counting step of a detection runs.\<close>

definition before_count :: "heatmap_obj \<Rightarrow> box \<Rightarrow> string \<Rightarrow> int \<Rightarrow> buffer \<Rightarrow> heatmap_obj" where
  "before_count s bx nm track_id hm =
     s\<lparr> class_wise_count :=
          (if nm \<in> dom (class_wise_count s) then class_wise_count s
           else (class_wise_count s)(nm \<mapsto> (0, 0))),
        heatmap := Some hm,
        track_history := (track_history s)(track_id \<mapsto>
          append_bounded (case track_history s track_id of None \<Rightarrow> [] | Some t \<Rightarrow> t)
            (bbox_center bx)) \<rparr>"

text \<open>
  The counted ids are distinct and every history has at most 30 entries.
\<close>

definition heat_inv :: "heatmap_obj \<Rightarrow> bool" where
  "heat_inv s =
     (distinct (count_ids s) \<and> (\<forall>k h. track_history s k = Some h \<longrightarrow> length h \<le> 30))"

text \<open>
  \<open>heat_later s t\<close>: counted ids stay counted and the invariant is kept.
\<close>

definition heat_later :: "heatmap_obj \<Rightarrow> heatmap_obj \<Rightarrow> bool" where
  "heat_later s t =
     (set (count_ids s) \<subseteq> set (count_ids t) \<and> (heat_inv s \<longrightarrow> heat_inv t))"

text \<open>
  A speed is only ever stored for an id that is already in \<open>trkd_ids\<close>.
\<close>

definition finalized_inv :: "speed_estimator \<Rightarrow> bool" where
  "finalized_inv s = (dom (spd s) \<subseteq> set (trkd_ids s))"

text \<open>
  Every stored history of the speed estimator has at most 30 entries.
\<close>

definition history_inv :: "speed_estimator \<Rightarrow> bool" where
  "history_inv s = (\<forall>k h. trk_history s k = Some h \<longrightarrow> length h \<le> 30)"

text \<open>
  \<open>later s s'\<close>: how a later state of the speed estimator relates to an earlier
  one.  The ids in \<open>trkd_ids\<close> stay, their entry in \<open>spd\<close> (present or absent) is
  frozen, and both invariants are kept.
\<close>

definition later :: "speed_estimator \<Rightarrow> speed_estimator \<Rightarrow> bool" where
  "later s s' =
     (set (trkd_ids s) \<subseteq> set (trkd_ids s')
      \<and> (\<forall>k. k \<in> set (trkd_ids s) \<longrightarrow> spd s' k = spd s k)
      \<and> (finalized_inv s \<longrightarrow> finalized_inv s')
      \<and> (history_inv s \<longrightarrow> history_inv s'))"

text \<open>
  No region, or a region of fewer than two points: neither counting branch of lines
  143 and 157 applies.
\<close>

definition counting_off :: "heatmap_obj \<Rightarrow> bool" where
  "counting_off s = (case count_reg_pts s of None \<Rightarrow> True | Some pts \<Rightarrow> length pts < 2)"

text \<open>
  \<open>same_counts s t\<close>: the totals, the counted ids, the region points and every
  per-class counter are the same in both states.
\<close>

definition same_counts :: "heatmap_obj \<Rightarrow> heatmap_obj \<Rightarrow> bool" where
  "same_counts s t =
     (in_counts t = in_counts s \<and> out_counts t = out_counts s \<and> count_ids t = count_ids s
      \<and> count_reg_pts t = count_reg_pts s \<and> (\<forall>nm. class_count t nm = class_count s nm))"

text \<open>
  A frame without detections: no track ids at all, or an empty id list with no
  boxes.
\<close>

definition quiet_frame :: "frame \<Rightarrow> bool" where
  "quiet_frame fr =
     (case ids fr of None \<Rightarrow> True | Some track_ids \<Rightarrow> track_ids = [] \<and> xyxy fr = [])"

text \<open>
  The geometries the counting branches use exist: \<open>__init__\<close> builds them for two
  points and for three or more.
\<close>

definition region_ok :: "heatmap_obj \<Rightarrow> bool" where
  "region_ok s =
     (case count_reg_pts s of
        None \<Rightarrow> True
      | Some pts \<Rightarrow>
          if 3 \<le> length pts then counting_region s \<noteq> None
          else if length pts = 2
            then counting_region s \<noteq> None \<and> counting_line_segment s \<noteq> None
          else True)"

text \<open>
  \<open>same_config s t\<close>: what \<open>__init__\<close> fixed is the same in both states, and a
  buffer allocated in \<open>s\<close> is allocated in \<open>t\<close>.
\<close>

definition same_config :: "heatmap_obj \<Rightarrow> heatmap_obj \<Rightarrow> bool" where
  "same_config s t =
     (count_reg_pts t = count_reg_pts s \<and> counting_region t = counting_region s
      \<and> counting_line_segment t = counting_line_segment s \<and> hm_names t = hm_names s
      \<and> hm_env_check t = hm_env_check s \<and> hm_view_img t = hm_view_img s
      \<and> (heatmap t = None \<longrightarrow> heatmap s = None)
      \<and> (initialized t \<and> heatmap t = None \<longrightarrow> initialized s \<and> heatmap s = None))"

subsection \<open>The crossing tests as the specification words them\<close>



subsection \<open>A planar geometry for the examples\<close>

text \<open>
  The closed examples need a library that computes.  \<open>planar\<close> reads the three
  predicates in the plane: two lines intersect when two of their segments share a
  point (end points included), a polygon contains a point by the even-odd rule, the
  centroid of a two-point line is its midpoint and that of a polygon the centroid
  of its area.  This is what shapely computes for two-point lines and, away from
  the boundary, for simple polygons.
\<close>

definition cross3 :: "point \<Rightarrow> point \<Rightarrow> point \<Rightarrow> real" where
  "cross3 p q r = (fst q - fst p) * (snd r - snd p) - (snd q - snd p) * (fst r - fst p)"

definition within_box :: "point \<Rightarrow> point \<Rightarrow> point \<Rightarrow> bool" where
  "within_box p q r =
     (min (fst p) (fst q) \<le> fst r \<and> fst r \<le> max (fst p) (fst q)
      \<and> min (snd p) (snd q) \<le> snd r \<and> snd r \<le> max (snd p) (snd q))"

definition segments_meet :: "point \<Rightarrow> point \<Rightarrow> point \<Rightarrow> point \<Rightarrow> bool" where
  "segments_meet a b c d =
     (let d1 = cross3 c d a; d2 = cross3 c d b; d3 = cross3 a b c; d4 = cross3 a b d
      in (d1 * d2 < 0 \<and> d3 * d4 < 0)
         \<or> (d1 = 0 \<and> within_box c d a) \<or> (d2 = 0 \<and> within_box c d b)
         \<or> (d3 = 0 \<and> within_box a b c) \<or> (d4 = 0 \<and> within_box a b d))"

definition planar_intersects :: "geometry \<Rightarrow> geometry \<Rightarrow> bool" where
  "planar_intersects g h =
     (case g of
        LineString ps \<Rightarrow>
          (case h of
             LineString qs \<Rightarrow>
               list_ex (\<lambda>e. list_ex (\<lambda>f. segments_meet (fst e) (snd e) (fst f) (snd f))
                                  (zip qs (tl qs)))
                       (zip ps (tl ps))
           | Polygon qs \<Rightarrow> False)
      | Polygon ps \<Rightarrow> False)"

definition ring :: "point list \<Rightarrow> (point \<times> point) list" where
  "ring ps = (case ps of [] \<Rightarrow> [] | p # rest \<Rightarrow> zip ps (rest @ [p]))"

definition ray_crosses :: "point \<Rightarrow> point \<times> point \<Rightarrow> bool" where
  "ray_crosses p e =
     (case e of (a, b) \<Rightarrow>
        (snd p < snd a) \<noteq> (snd p < snd b)
        \<and> fst p < (fst b - fst a) * (snd p - snd a) / (snd b - snd a) + fst a)"

definition planar_contains :: "geometry \<Rightarrow> point \<Rightarrow> bool" where
  "planar_contains g p =
     (case g of
        LineString ps \<Rightarrow> False
      | Polygon ps \<Rightarrow> odd (length (filter (ray_crosses p) (ring ps))))"

definition shoelace :: "point \<times> point \<Rightarrow> real" where
  "shoelace e = (case e of (a, b) \<Rightarrow> fst a * snd b - fst b * snd a)"

definition planar_centroid_x :: "geometry \<Rightarrow> real" where
  "planar_centroid_x g =
     (case g of
        LineString ps \<Rightarrow> (case ps of [a, b] \<Rightarrow> (fst a + fst b) / 2 | _ \<Rightarrow> 0)
      | Polygon ps \<Rightarrow>
          (let twice_area = sum_list (map shoelace (ring ps))
           in if twice_area = 0 then 0
              else sum_list (map (\<lambda>e. (fst (fst e) + fst (snd e)) * shoelace e) (ring ps))
                     / (3 * twice_area)))"

definition planar :: shapely where
  "planar = \<lparr> contains = planar_contains, intersects = planar_intersects,
              centroid_x = planar_centroid_x \<rparr>"

subsection \<open>Objects, frames and clocks of the examples\<close>

text \<open>
  The class names of the \<open>__main__\<close> blocks.
\<close>

definition demo_names :: "int \<rightharpoonup> string" where
  "demo_names = [0 \<mapsto> ''person'', 1 \<mapsto> ''car'']"

text \<open>
  The object \<open>Heatmap(names, count_reg_pts=[(0, 100), (200, 100)], decay_factor=0.5)\<close>
  builds.
\<close>

definition line_counter :: heatmap_obj where
  "line_counter =
     \<lparr> hm_view_img = False, initialized = False, hm_names = demo_names, heatmap = None,
       track_history = Map.empty, counting_region = Some (LineString [(0, 100), (200, 100)]),
       in_counts = 0, out_counts = 0, count_ids = [],
       class_wise_count = Map.empty, decay_factor = 1 / 2, hm_env_check = False,
       counting_line_segment = Some (LineString [(0, 100), (200, 100)]),
       count_reg_pts = Some [(0, 100), (200, 100)] \<rparr>"

text \<open>
  The object built for the square \<open>[(0, 0), (10, 0), (10, 10), (0, 10)]\<close>.
\<close>

definition polygon_counter :: heatmap_obj where
  "polygon_counter =
     \<lparr> hm_view_img = False, initialized = False, hm_names = demo_names, heatmap = None,
       track_history = Map.empty,
       counting_region = Some (Polygon [(0, 0), (10, 0), (10, 10), (0, 10)]),
       in_counts = 0, out_counts = 0, count_ids = [],
       class_wise_count = Map.empty, decay_factor = 1 / 2, hm_env_check = False,
       counting_line_segment = None,
       count_reg_pts = Some [(0, 0), (10, 0), (10, 10), (0, 10)] \<rparr>"

text \<open>
  A 200 by 300 frame with one detection of class 0 and track id 1; no key is pressed.
\<close>

definition one_box :: "box \<Rightarrow> frame" where
  "one_box bx = \<lparr> im0 = (200, 300), ids = Some [1], xyxy = [bx], clss = [0], key = - 1 \<rparr>"

text \<open>
  \<open>SpeedEstimator(names)\<close>: the default band \<open>[(20, 400), (1260, 400)]\<close> and
  threshold 10.
\<close>

definition demo_estimator :: speed_estimator where
  "demo_estimator = SpeedEstimator_init demo_names None False 10 False"

text \<open>
  A clock that advances by one second per reading.
\<close>

definition steady_clock :: "nat \<Rightarrow> real" where
  "steady_clock n = real n + 5"

text \<open>
  A clock whose first two readings are equal.
\<close>

definition stalled_clock :: "nat \<Rightarrow> real" where
  "stalled_clock n = (if n < 2 then 5 else real n + 4)"

text \<open>
  The object built without a counting region.
\<close>

definition plain_heatmap :: heatmap_obj where
  "plain_heatmap =
     \<lparr> hm_view_img = False, initialized = False, hm_names = demo_names, heatmap = None,
       track_history = Map.empty, counting_region = None,
       in_counts = 0, out_counts = 0, count_ids = [],
       class_wise_count = Map.empty, decay_factor = 1 / 2, hm_env_check = False,
       counting_line_segment = None, count_reg_pts = None \<rparr>"

text \<open>
  A box moving up across the line y = 100.
\<close>

definition crossing_frames :: "frame list" where
  "crossing_frames = [one_box (40, 90, 60, 120), one_box (40, 85, 60, 115)]"


text \<open>
  Thirty frames with the same box.
\<close>

definition steady_frames :: "frame list" where
  "steady_frames = replicate 30 (one_box (0, 0, 10, 10))"

section \<open>The bounded history\<close>

lemma append_bounded_length: "length old \<le> 30 \<Longrightarrow> length (append_bounded old c) \<le> 30"
  by (simp add: append_bounded_def Let_def)

lemma append_bounded_fifo:
  "length old \<le> 30 \<Longrightarrow>
   append_bounded old c = (if length old = 30 then tl old @ [c] else old @ [c])"
  by (cases old) (auto simp add: append_bounded_def Let_def)

lemma append_bounded_last: "last (append_bounded old c) = c"
  by (cases old) (auto simp add: append_bounded_def Let_def last_tl)

lemma nth_before_appended: "ys \<noteq> [] \<Longrightarrow> (ys @ [c]) ! (length ys - 1) = last ys"
  by (simp add: nth_append last_conv_nth)

lemma append_bounded_prev:
  "old \<noteq> [] \<Longrightarrow>
   1 < length (append_bounded old c)
   \<and> append_bounded old c ! (length (append_bounded old c) - 2) = last old"
proof -
  assume ne: "old \<noteq> []"
  then obtain x xs where old: "old = x # xs" by (cases old) auto
  show ?thesis
  proof (cases "length (old @ [c]) > 30")
    case True
    then have ab: "append_bounded (x # xs) c = xs @ [c]"
      by (simp add: append_bounded_def Let_def old)
    from True have xs: "xs \<noteq> []" by (auto simp add: old)
    then have "(xs @ [c]) ! (length xs - 1) = last xs"
      by (rule nth_before_appended)
    with xs show ?thesis
      unfolding old ab by simp
  next
    case False
    then have ab: "append_bounded (x # xs) c = (x # xs) @ [c]"
      by (simp add: append_bounded_def Let_def old)
    have "((x # xs) @ [c]) ! (length (x # xs) - 1) = last (x # xs)"
      by (rule nth_before_appended) simp
    then show ?thesis
      unfolding old ab by (simp del: last.simps)
  qed
qed

section \<open>Properties of speed\_estimation.py\<close>

subsection \<open>What a call can change\<close>

lemma store_sample_fields [simp]:
  "spd (store_sample clock i cur s) = spd s"
  "trkd_ids (store_sample clock i cur s) = trkd_ids s"
  "trk_history (store_sample clock i cur s) = trk_history s"
  by (simp_all add: store_sample_def)

lemma finalize_speed_spd:
  "k \<noteq> i \<Longrightarrow> spd (snd (finalize_speed clock i cur s)) k = spd s k"
  by (simp add: finalize_speed_def Let_def split: option.splits)

lemma finalize_speed_dom:
  "dom (spd (snd (finalize_speed clock i cur s))) \<subseteq> insert i (dom (spd s))"
  by (auto simp add: finalize_speed_def Let_def split: option.splits if_splits)

lemma finalize_speed_trkd_ids:
  "trkd_ids (snd (finalize_speed clock i cur s)) = trkd_ids s @ [i]"
  by (simp add: finalize_speed_def Let_def split: option.splits)

lemma finalize_speed_history:
  "trk_history (snd (finalize_speed clock i cur s)) = trk_history s"
  by (simp add: finalize_speed_def Let_def split: option.splits)

lemma calculate_speed_cases:
  "snd (calculate_speed clock i track s) = s
   \<or> snd (calculate_speed clock i track s) = store_sample clock i (last track) s
   \<or> (i \<notin> set (trkd_ids s)
      \<and> snd (calculate_speed clock i track s) = snd (finalize_speed clock i (last track) s))"
  by (simp add: calculate_speed_def Let_def split: list.splits)

lemma calculate_speed_frozen:
  "k \<in> set (trkd_ids s) \<Longrightarrow> spd (snd (calculate_speed clock i track s)) k = spd s k"
proof -
  assume k: "k \<in> set (trkd_ids s)"
  from calculate_speed_cases [of clock i track s] show ?thesis
  proof (elim disjE conjE)
    assume "i \<notin> set (trkd_ids s)"
      and eq: "snd (calculate_speed clock i track s) = snd (finalize_speed clock i (last track) s)"
    with k have "k \<noteq> i" by auto
    with eq show ?thesis by (simp add: finalize_speed_spd)
  qed simp_all
qed

lemma calculate_speed_trkd_ids:
  "set (trkd_ids s) \<subseteq> set (trkd_ids (snd (calculate_speed clock i track s)))"
  using calculate_speed_cases [of clock i track s]
  by (auto simp add: finalize_speed_trkd_ids)

lemma calculate_speed_history:
  "trk_history (snd (calculate_speed clock i track s)) = trk_history s"
  using calculate_speed_cases [of clock i track s]
  by (auto simp add: finalize_speed_history)

lemma calculate_speed_inv:
  "finalized_inv s \<Longrightarrow> finalized_inv (snd (calculate_speed clock i track s))"
proof -
  assume inv: "finalized_inv s"
  from calculate_speed_cases [of clock i track s] show ?thesis
  proof (elim disjE conjE)
    assume eq: "snd (calculate_speed clock i track s) = snd (finalize_speed clock i (last track) s)"
    have "dom (spd (snd (finalize_speed clock i (last track) s))) \<subseteq> insert i (dom (spd s))"
      by (rule finalize_speed_dom)
    also have "\<dots> \<subseteq> set (trkd_ids s @ [i])"
      using inv by (auto simp add: finalized_inv_def)
    finally show ?thesis
      by (simp only: eq finalized_inv_def finalize_speed_trkd_ids)
  qed (use inv in \<open>simp_all add: finalized_inv_def\<close>)
qed

lemma later_refl: "later s s"
  by (simp add: later_def)

lemma later_trans: "later s t \<Longrightarrow> later t u \<Longrightarrow> later s u"
proof -
  assume a: "later s t" and b: "later t u"
  have "set (trkd_ids s) \<subseteq> set (trkd_ids u)"
    using a b unfolding later_def by blast
  moreover have "spd u k = spd s k" if "k \<in> set (trkd_ids s)" for k
  proof -
    from that a have "k \<in> set (trkd_ids t)" and "spd t k = spd s k"
      unfolding later_def by blast+
    with b show ?thesis unfolding later_def by simp
  qed
  moreover have "finalized_inv s \<longrightarrow> finalized_inv u"
    using a b unfolding later_def by blast
  moreover have "history_inv s \<longrightarrow> history_inv u"
    using a b unfolding later_def by blast
  ultimately show ?thesis unfolding later_def by blast
qed

lemma calculate_speed_later: "later s (snd (calculate_speed clock i track s))"
  unfolding later_def
  using calculate_speed_frozen calculate_speed_trkd_ids calculate_speed_inv
  by (simp add: history_inv_def calculate_speed_history)

lemma speed_detection_later: "later s (snd (speed_detection g clock s d))"
proof (cases d)
  case (fields bx trk_id cls)
  show ?thesis
  proof (cases g)
    case None
    with fields show ?thesis by (simp add: speed_detection_def later_refl)
  next
    case (Some track_id)
    define old where "old = (case trk_history s track_id of None \<Rightarrow> [] | Some t \<Rightarrow> t)"
    define track where "track = append_bounded old (bbox_center bx)"
    define s1 where "s1 = s\<lparr> trk_history := (trk_history s)(track_id \<mapsto> track) \<rparr>"
    define s2 where
      "s2 = (if trk_id \<in> dom (trk_pt s1) then s1 else s1\<lparr> trk_pt := (trk_pt s1)(trk_id \<mapsto> 0) \<rparr>)"
    have hist: "trk_history s2 = (trk_history s)(track_id \<mapsto> track)"
      and same: "spd s2 = spd s" "trkd_ids s2 = trkd_ids s"
      by (simp_all add: s2_def s1_def)
    have "history_inv s2" if inv: "history_inv s"
    proof -
      from inv have "length old \<le> 30"
        by (auto simp add: history_inv_def old_def split: option.splits)
      then have "length track \<le> 30"
        by (simp add: track_def append_bounded_length)
      with inv show ?thesis
        by (auto simp add: history_inv_def hist)
    qed
    then have a: "later s s2"
      by (simp add: later_def finalized_inv_def same)
    have b: "later s2 (snd (calculate_speed clock trk_id track s2))"
      by (rule calculate_speed_later)
    have "snd (speed_detection g clock s d) = s2
          \<or> snd (speed_detection g clock s d) = snd (calculate_speed clock trk_id track s2)"
      using fields Some
      by (simp add: speed_detection_def Let_def track_def old_def s1_def s2_def split: sum.splits)
    with a later_trans [OF a b] show ?thesis by auto
  qed
qed

lemma speed_loop_later: "later s (snd (speed_loop g clock s ds))"
proof (induction ds arbitrary: s)
  case Nil
  show ?case by (simp add: later_refl)
next
  case (Cons d ds)
  obtain e s' where r: "speed_detection g clock s d = (e, s')"
    by (cases "speed_detection g clock s d")
  have step: "later s s'"
    using speed_detection_later [of s g clock d] r by simp
  show ?case
  proof (cases e)
    case None
    with r step Cons.IH [of s'] show ?thesis
      by (auto intro: later_trans)
  next
    case (Some err)
    with r step show ?thesis by simp
  qed
qed

lemma estimate_speed_later: "later s (snd (estimate_speed g clock fr s))"
proof (cases "ids fr")
  case None
  then show ?thesis by (simp add: estimate_speed_def later_refl)
next
  case (Some trk_ids)
  obtain e s' where r: "speed_loop g clock s (zip (xyxy fr) (zip trk_ids (clss fr))) = (e, s')"
    by (cases "speed_loop g clock s (zip (xyxy fr) (zip trk_ids (clss fr)))")
  have "later s s'"
    using speed_loop_later [of s g clock "zip (xyxy fr) (zip trk_ids (clss fr))"] r by simp
  moreover have "snd (estimate_speed g clock fr s) = s'"
    using Some r by (simp add: estimate_speed_def split: option.splits)
  ultimately show ?thesis by simp
qed

lemma speed_call_step_later: "later s (speed_call_step g clock s c)"
  by (cases c) (simp_all add: speed_call_step_def calculate_speed_later estimate_speed_later)

lemma speed_session_later: "later s (speed_session g clock s cs)"
proof (induction cs arbitrary: s)
  case Nil
  show ?case by (simp add: speed_session_def later_refl)
next
  case (Cons c cs)
  have "later (speed_call_step g clock s c) (speed_session g clock (speed_call_step g clock s c) cs)"
    by (rule Cons.IH)
  with speed_call_step_later [of s g clock c] show ?case
    by (auto simp add: speed_session_def intro: later_trans)
qed

lemma session_invs:
  "finalized_inv (speed_session g clock (SpeedEstimator_init nms pts view thresh envc) cs)
   \<and> history_inv (speed_session g clock (SpeedEstimator_init nms pts view thresh envc) cs)"
proof -
  have "finalized_inv (SpeedEstimator_init nms pts view thresh envc)"
    and "history_inv (SpeedEstimator_init nms pts view thresh envc)"
    by (simp_all add: finalized_inv_def history_inv_def SpeedEstimator_init_def)
  with speed_session_later [of "SpeedEstimator_init nms pts view thresh envc" g clock cs]
  show ?thesis by (simp add: later_def)
qed

text \<open>
  The equations that evaluate a session of the speed estimator.
\<close>

lemmas speed_eval =
  demo_estimator_def demo_names_def SpeedEstimator_init_def speed_session_def speed_call_step_def
  calculate_speed_def finalize_speed_def store_sample_def direction_known_def Let_def

subsection \<open>Finalized speeds\<close>

text \<open>
  Claim C8: once a speed is stored for a track id, no later call changes it.  For
  every state reached from a fresh estimator by any calls of \<open>calculate_speed\<close> and
  \<open>estimate_speed\<close> (whatever they raise, whatever the clock reads), a value stored
  under \<open>k\<close> is still stored under \<open>k\<close> after any further calls.
\<close>

theorem speed_finalized_once:
  "spd (speed_session g clock (SpeedEstimator_init nms pts view thresh envc) before) k = Some v
   \<Longrightarrow> spd (speed_session g clock
             (speed_session g clock (SpeedEstimator_init nms pts view thresh envc) before) after) k
       = Some v"
proof -
  let ?s = "speed_session g clock (SpeedEstimator_init nms pts view thresh envc) before"
  assume stored: "spd ?s k = Some v"
  have "finalized_inv ?s" using session_invs by blast
  with stored have "k \<in> set (trkd_ids ?s)"
    by (auto simp add: finalized_inv_def)
  moreover have "later ?s (speed_session g clock ?s after)"
    by (rule speed_session_later)
  ultimately show ?thesis
    using stored by (simp add: later_def)
qed

text \<open>
  Track 1 is sampled outside the band, then inside it one second later: the speed
  100 is stored, and two more samples in the band leave it.
\<close>

theorem speed_finalized_once_witness:
  "spd (speed_session None steady_clock demo_estimator
          [Calculate_speed 1 [(100, 300)], Calculate_speed 1 [(100, 400)]]) 1 = Some 100
   \<and> spd (speed_session None steady_clock
          (speed_session None steady_clock demo_estimator
             [Calculate_speed 1 [(100, 300)], Calculate_speed 1 [(100, 400)]])
          [Calculate_speed 1 [(100, 405)], Calculate_speed 1 [(100, 395)]]) 1 = Some 100"
proof -
  have stored: "spd (speed_session None steady_clock
                  (SpeedEstimator_init demo_names None False 10 False)
                  [Calculate_speed 1 [(100, 300)], Calculate_speed 1 [(100, 400)]]) 1 = Some 100"
    by (simp add: speed_eval steady_clock_def)
  from speed_finalized_once [OF stored] stored show ?thesis
    by (simp only: demo_estimator_def)
qed

text \<open>
  Claim C5, amended.  The claim says that a sample with a time difference \<open>\<le> 0\<close> is
  skipped and that the track stays eligible for a later sample.  The first half
  holds; the second does not, because line 66 appends the id to \<open>trkd_ids\<close> before
  the difference is tested.  What the code does: in a state reached from a fresh
  estimator, when the guard of line 65 passes and the difference is not positive,
  \<open>calculate_speed\<close> returns without an exception and without a speed, the id is in
  \<open>trkd_ids\<close>, lines 72--73 store the next clock reading and the latest position
  as the sample of the track, and no later call ever stores a speed for it.
\<close>

theorem nonpositive_delta_finalizes:
  assumes reach: "s = speed_session g clock (SpeedEstimator_init nms pts view thresh envc) before"
    and pts: "reg_pts s = p0 # p1 # rest"
    and track: "track \<noteq> []"
    and x: "fst p0 < fst (last track)" "fst (last track) < fst p1"
    and band: "direction_known s p0 p1 (last track)"
    and prev: "trk_pt s trk_id = Some t0" "t0 \<noteq> 0"
    and fresh: "trk_id \<notin> set (trkd_ids s)"
    and delta: "clock (ticks s) - t0 \<le> 0"
  shows "fst (calculate_speed clock trk_id track s) = None
         \<and> spd (snd (calculate_speed clock trk_id track s)) trk_id = None
         \<and> trk_id \<in> set (trkd_ids (snd (calculate_speed clock trk_id track s)))
         \<and> trk_pt (snd (calculate_speed clock trk_id track s)) trk_id
             = Some (clock (Suc (ticks s)))
         \<and> trk_pp (snd (calculate_speed clock trk_id track s)) trk_id = Some (last track)
         \<and> ticks (snd (calculate_speed clock trk_id track s)) = Suc (Suc (ticks s))
         \<and> spd (speed_session g clock (snd (calculate_speed clock trk_id track s)) after) trk_id = None"
proof -
  let ?s' = "snd (calculate_speed clock trk_id track s)"
  have "finalized_inv s"
    unfolding reach using session_invs by blast
  with fresh have none: "spd s trk_id = None"
    by (auto simp add: finalized_inv_def)
  have res: "calculate_speed clock trk_id track s =
               (None, store_sample clock trk_id (last track)
                        (s\<lparr> trkd_ids := trkd_ids s @ [trk_id], ticks := Suc (ticks s) \<rparr>))"
    using pts track x band prev fresh delta
    by (simp add: calculate_speed_def finalize_speed_def Let_def)
  have a: "fst (calculate_speed clock trk_id track s) = None"
    and b: "spd ?s' trk_id = None"
    and c: "trk_id \<in> set (trkd_ids ?s')"
    using none by (simp_all add: res)
  have d: "trk_pt ?s' trk_id = Some (clock (Suc (ticks s)))"
    and e: "trk_pp ?s' trk_id = Some (last track)"
    and f: "ticks ?s' = Suc (Suc (ticks s))"
    by (simp_all add: res store_sample_def)
  have "later ?s' (speed_session g clock ?s' after)"
    by (rule speed_session_later)
  with b c have "spd (speed_session g clock ?s' after) trk_id = None"
    by (simp add: later_def)
  with a b c d e f show ?thesis by simp
qed

text \<open>
  Claim C5 fails as stated.  Track 1 is sampled at time 5; its next sample, in the
  band, is taken at a clock that still reads 5, so the difference is 0.  The third
  sample is in the band too, one second after the stored time 6, and yet no speed
  is stored: there is no retry.
\<close>

theorem retry_after_stalled_clock_counterexample:
  "trk_pt (speed_session None stalled_clock demo_estimator [Calculate_speed 1 [(100, 300)]]) 1 = Some 5
   \<and> stalled_clock (ticks (speed_session None stalled_clock demo_estimator
                              [Calculate_speed 1 [(100, 300)]])) - 5 \<le> 0
   \<and> trk_pt (speed_session None stalled_clock demo_estimator
               [Calculate_speed 1 [(100, 300)], Calculate_speed 1 [(100, 400)]]) 1 = Some 6
   \<and> 0 < stalled_clock (ticks (speed_session None stalled_clock demo_estimator
               [Calculate_speed 1 [(100, 300)], Calculate_speed 1 [(100, 400)]])) - 6
   \<and> direction_known demo_estimator (20, 400) (1260, 400) (100, 405)
   \<and> spd (speed_session None stalled_clock demo_estimator
            [Calculate_speed 1 [(100, 300)], Calculate_speed 1 [(100, 400)],
             Calculate_speed 1 [(100, 405)]]) 1 = None"
  by (simp add: speed_eval stalled_clock_def)

text \<open>
  The amended claim C5 at the same session: the second sample has difference 0, and
  the call stores the time 6 and the position (100, 400).
\<close>

theorem nonpositive_delta_finalizes_witness:
  "stalled_clock (ticks (speed_session None stalled_clock demo_estimator
                           [Calculate_speed 1 [(100, 300)]])) - 5 \<le> 0
   \<and> fst (calculate_speed stalled_clock 1 [(100, 400)]
           (speed_session None stalled_clock demo_estimator [Calculate_speed 1 [(100, 300)]])) = None
   \<and> trk_pt (snd (calculate_speed stalled_clock 1 [(100, 400)]
           (speed_session None stalled_clock demo_estimator [Calculate_speed 1 [(100, 300)]]))) 1
       = Some 6
   \<and> trk_pp (snd (calculate_speed stalled_clock 1 [(100, 400)]
           (speed_session None stalled_clock demo_estimator [Calculate_speed 1 [(100, 300)]]))) 1
       = Some (100, 400)
   \<and> spd (speed_session None stalled_clock
           (snd (calculate_speed stalled_clock 1 [(100, 400)]
              (speed_session None stalled_clock demo_estimator [Calculate_speed 1 [(100, 300)]])))
           [Calculate_speed 1 [(100, 405)]]) 1 = None"
proof -
  let ?s = "speed_session None stalled_clock demo_estimator [Calculate_speed 1 [(100, 300)]]"
  have reach: "?s = speed_session None stalled_clock
                 (SpeedEstimator_init demo_names None False 10 False)
                 [Calculate_speed 1 [(100, 300)]]"
    by (simp only: demo_estimator_def)
  have pts: "reg_pts ?s = (20, 400) # (1260, 400) # []"
    and track: "[(100, 400)] \<noteq> ([] :: point list)"
    and x1: "fst ((20, 400) :: point) < fst (last [(100, 400) :: point])"
    and x2: "fst (last [(100, 400) :: point]) < fst ((1260, 400) :: point)"
    and band: "direction_known ?s (20, 400) (1260, 400) (last [(100, 400)])"
    and prev: "trk_pt ?s 1 = Some 5" "(5 :: real) \<noteq> 0"
    and fresh: "1 \<notin> set (trkd_ids ?s)"
    and delta: "stalled_clock (ticks ?s) - 5 \<le> 0"
    and next_reading: "stalled_clock (Suc (ticks ?s)) = 6"
    by (simp_all add: speed_eval stalled_clock_def)
  from nonpositive_delta_finalizes
         [OF reach pts track x1 x2 band prev fresh delta, of "[Calculate_speed 1 [(100, 405)]]"]
       delta next_reading
  show ?thesis by simp
qed

subsection \<open>Exceptions\<close>

text \<open>
  Claim C10, amended.  The claim describes a direct call of \<open>calculate_speed\<close> for
  an id with no entry in \<open>trk_pt\<close> and \<open>trk_pp\<close>, a latest x inside the region and
  a latest y in the band: the guard passes, the id is appended to \<open>trkd_ids\<close>, and
  a \<open>KeyError\<close> is raised.  All of that holds (for an id not yet in \<open>trkd_ids\<close>),
  except that the failing subscript is \<open>trk_pt[trk_id]\<close> of line 68, read after
  \<open>time()\<close>; \<open>trk_pp[trk_id]\<close> of line 70 is never reached.  The appended id and
  the clock reading are all that the call leaves behind.
\<close>

theorem calculate_speed_missing_sample:
  assumes "trk_pt s trk_id = None"
    and "reg_pts s = p0 # p1 # rest"
    and "track \<noteq> []"
    and "fst p0 < fst (last track)" and "fst (last track) < fst p1"
    and "direction_known s p0 p1 (last track)"
    and "trk_id \<notin> set (trkd_ids s)"
  shows "calculate_speed clock trk_id track s =
           (Some (KeyError ''trk_pt'' (IntKey trk_id)),
            s\<lparr> trkd_ids := trkd_ids s @ [trk_id], ticks := Suc (ticks s) \<rparr>)"
  using assms by (simp add: calculate_speed_def finalize_speed_def Let_def)

text \<open>
  Claim C10 fails as stated: for the fresh estimator and track id 7 at (100, 400),
  the exception is the \<open>KeyError\<close> of \<open>trk_pt\<close>, not one of \<open>trk_pp\<close>.
\<close>

theorem missing_sample_raises_on_trk_pt_counterexample:
  "trk_pt demo_estimator 7 = None \<and> trk_pp demo_estimator 7 = None
   \<and> fst (calculate_speed steady_clock 7 [(100, 400)] demo_estimator)
       = Some (KeyError ''trk_pt'' (IntKey 7))
   \<and> fst (calculate_speed steady_clock 7 [(100, 400)] demo_estimator)
       \<noteq> Some (KeyError ''trk_pp'' (IntKey 7))"
  by (simp add: speed_eval)

text \<open>
  The amended claim C10 at that call.
\<close>

theorem calculate_speed_missing_sample_witness:
  "trk_pt demo_estimator 7 = None
   \<and> calculate_speed steady_clock 7 [(100, 400)] demo_estimator =
       (Some (KeyError ''trk_pt'' (IntKey 7)),
        demo_estimator\<lparr> trkd_ids := trkd_ids demo_estimator @ [7],
                        ticks := Suc (ticks demo_estimator) \<rparr>)"
proof -
  have a: "trk_pt demo_estimator 7 = None"
    and b: "reg_pts demo_estimator = (20, 400) # (1260, 400) # []"
    and c: "[(100, 400)] \<noteq> ([] :: point list)"
    and d: "fst ((20, 400) :: point) < fst (last [(100, 400) :: point])"
    and e: "fst (last [(100, 400) :: point]) < fst ((1260, 400) :: point)"
    and f: "direction_known demo_estimator (20, 400) (1260, 400) (last [(100, 400)])"
    and g: "7 \<notin> set (trkd_ids demo_estimator)"
    by (simp_all add: speed_eval)
  from calculate_speed_missing_sample [OF a b c d e f g, of steady_clock] a show ?thesis
    by (rule_tac conjI)
qed

text \<open>
  Claim C1 says that \<open>estimate_speed\<close> and \<open>generate_heatmap\<close> complete without an
  exception on every frame with at least one tracked detection.  The code of
  \<open>estimate_speed\<close> does the opposite: on every frame whose id list, box list and
  class list are non-empty, the first pass through the loop reads the unbound name
  \<open>track_id\<close> (line 98; the loop variable is \<open>trk_id\<close>) and the call ends in a
  \<open>NameError\<close>, the object unchanged.
\<close>

theorem estimate_speed_name_error:
  "estimate_speed None clock (fr\<lparr> ids := Some (i # is), xyxy := b # bs, clss := c # cs \<rparr>) s
     = (Inl (NameError ''track_id''), s)"
  by (simp add: estimate_speed_def speed_detection_def)

subsection \<open>The history of the speed estimator\<close>

text \<open>
  With \<open>track_id\<close> unbound a call of \<open>estimate_speed\<close> leaves the object as it
  is.
\<close>

lemma estimate_speed_unbound: "snd (estimate_speed None clock fr s) = s"
proof (cases "ids fr")
  case None
  then show ?thesis by (simp add: estimate_speed_def)
next
  case (Some trk_ids)
  have "speed_loop None clock s ds = (None, s)
        \<or> speed_loop None clock s ds = (Some (NameError ''track_id''), s)" for ds
    by (cases ds) (simp_all add: speed_detection_def split: prod.splits)
  from this [of "zip (xyxy fr) (zip trk_ids (clss fr))"] Some show ?thesis
    by (auto simp add: estimate_speed_def)
qed

lemma speed_session_unbound_history:
  "trk_history (speed_session None clock s cs) = trk_history s"
proof (induction cs arbitrary: s)
  case Nil
  show ?case by (simp add: speed_session_def)
next
  case (Cons c cs)
  have "trk_history (speed_call_step None clock s c) = trk_history s"
    by (cases c) (simp_all add: speed_call_step_def calculate_speed_history estimate_speed_unbound)
  with Cons.IH [of "speed_call_step None clock s c"] show ?case
    by (simp add: speed_session_def)
qed

text \<open>
  Claim C9 says that every per-frame update appends the new centroid to the history
  of the track, which holds at most 30 entries and drops its oldest first, in the
  heatmap and in the speed estimator.  The heatmap does so (lemma
  \<open>heatmap_history_bounded_fifo\<close> below).  \<open>estimate_speed\<close> does not: the name
  \<open>track_id\<close> of line 98 is unbound, so the loop raises before the append of line
  100.  No call changes \<open>trk_history\<close>, and in every session of the speed
  estimator every history stays empty.
\<close>

theorem estimate_speed_never_records:
  "trk_history (snd (estimate_speed None clock fr s)) = trk_history s
   \<and> trk_history (speed_session None clock (SpeedEstimator_init nms pts view thresh envc) cs)
       = Map.empty"
  by (simp add: estimate_speed_unbound speed_session_unbound_history SpeedEstimator_init_def)

text \<open>
  One frame with track 1 at centroid (5, 5): a \<open>NameError\<close>, and no position
  recorded for track 1.
\<close>

lemma estimate_speed_records_nothing_example:
  "fst (estimate_speed None steady_clock (one_box (0, 0, 10, 10)) demo_estimator)
     = Inl (NameError ''track_id'')
   \<and> trk_history (snd (estimate_speed None steady_clock (one_box (0, 0, 10, 10)) demo_estimator)) 1
     = None"
  by (simp add: estimate_speed_def speed_detection_def one_box_def demo_estimator_def
        SpeedEstimator_init_def)

text \<open>
  Were \<open>track_id\<close> bound at module level, say to 1, the centroid of track 2 would
  go to the history of key 1.
\<close>

lemma bound_name_records_under_its_key:
  "trk_history (snd (estimate_speed (Some 1) steady_clock
      ((one_box (0, 0, 10, 10))\<lparr> ids := Some [2] \<rparr>) demo_estimator)) 1 = Some [(5, 5)]
   \<and> trk_history (snd (estimate_speed (Some 1) steady_clock
      ((one_box (0, 0, 10, 10))\<lparr> ids := Some [2] \<rparr>) demo_estimator)) 2 = None"
  by (simp add: estimate_speed_def speed_detection_def speed_label_def one_box_def
        append_bounded_def bbox_center_def speed_eval)

section \<open>Properties of heatmap.py\<close>

subsection \<open>One detection\<close>


text \<open>
  Decay and boxes keep the shape of the buffer.
\<close>

lemma buffer_shape [simp]:
  "rows (paint_box hm bx) = rows hm" "cols (paint_box hm bx) = cols hm"
  "rows (decay d hm) = rows hm" "cols (decay d hm) = cols hm"
  "rows (zeros shape) = fst shape" "cols (zeros shape) = snd shape"
  by (cases bx; simp add: paint_box_def decay_def zeros_def Let_def)+

lemma add_box_fits:
  "box_fits bx \<Longrightarrow> \<exists>hm'. add_box hm bx = Inr hm' \<and> rows hm' = rows hm \<and> cols hm' = cols hm"
  by (simp add: add_box_def)

lemma add_box_overflow: "\<not> box_fits bx \<Longrightarrow> add_box hm bx = Inl OverflowError"
  by (simp add: add_box_def)

lemma add_box_cases:
  "add_box hm bx = Inl OverflowError
   \<or> (\<exists>hm'. add_box hm bx = Inr hm' \<and> rows hm' = rows hm \<and> cols hm' = cols hm)"
  using add_box_fits [of bx hm] add_box_overflow [of bx hm] by blast

lemma heatmap_detection_unfold:
  assumes "hm_names s cls = Some nm" and "heatmap s = Some hm" and "add_box hm bx = Inr hm'"
  shows "heatmap_detection lib s (bx, cls, track_id) =
           count_step lib (before_count s bx nm track_id hm') bx nm track_id (bbox_center bx)
             (let old = (case track_history s track_id of None \<Rightarrow> [] | Some t \<Rightarrow> t)
              in if old = [] then None else Some (last old))"
proof (cases "case track_history s track_id of None \<Rightarrow> [] | Some t \<Rightarrow> t")
  case Nil
  then show ?thesis
    using assms
    by (simp add: heatmap_detection_def before_count_def Let_def append_bounded_def)
next
  case (Cons x xs)
  then have ne: "(case track_history s track_id of None \<Rightarrow> [] | Some t \<Rightarrow> t) \<noteq> []" by simp
  show ?thesis
    using assms append_bounded_prev [OF ne, of "bbox_center bx"] ne
    by (simp add: heatmap_detection_def before_count_def Let_def append_bounded_last)
qed

text \<open>
  A centre that does not fit ends the detection at line 127, the class bucket
  created.
\<close>

lemma heatmap_detection_overflow:
  assumes "hm_names s cls = Some nm" and "heatmap s \<noteq> None" and "\<not> box_fits bx"
  shows "heatmap_detection lib s (bx, cls, track_id) =
           (Some OverflowError,
            if nm \<in> dom (class_wise_count s) then s
            else s\<lparr> class_wise_count := (class_wise_count s)(nm \<mapsto> (0, 0)) \<rparr>)"
  using assms by (auto simp add: heatmap_detection_def Let_def add_box_overflow)

lemma before_count_fields [simp]:
  "count_reg_pts (before_count s bx nm track_id hm) = count_reg_pts s"
  "counting_region (before_count s bx nm track_id hm) = counting_region s"
  "counting_line_segment (before_count s bx nm track_id hm) = counting_line_segment s"
  "count_ids (before_count s bx nm track_id hm) = count_ids s"
  "in_counts (before_count s bx nm track_id hm) = in_counts s"
  "out_counts (before_count s bx nm track_id hm) = out_counts s"
  "hm_names (before_count s bx nm track_id hm) = hm_names s"
  by (simp_all add: before_count_def)

lemma before_count_bucket:
  "class_wise_count (before_count s bx nm track_id hm) nm = Some (class_count s nm)"
  by (simp add: before_count_def class_count_def dom_def split: option.splits)

lemma before_count_other:
  "class_count (before_count s bx nm track_id hm) other = class_count s other"
  by (auto simp add: before_count_def class_count_def dom_def split: option.splits)




lemma line_counter_init:
  "snd (Heatmap_init demo_names False (Some [(0, 100), (200, 100)]) (1 / 2) False) = Inr line_counter"
  by (simp add: Heatmap_init_def new_LineString_def line_counter_def Let_def)

lemma polygon_counter_init:
  "snd (Heatmap_init demo_names False (Some [(0, 0), (10, 0), (10, 10), (0, 10)]) (1 / 2) False)
     = Inr polygon_counter"
  by (simp add: Heatmap_init_def polygon_counter_def Let_def)

lemma plain_heatmap_init:
  "snd (Heatmap_init demo_names False None (1 / 2) False) = Inr plain_heatmap"
  by (simp add: Heatmap_init_def plain_heatmap_def Let_def)

text \<open>
  The equations that evaluate the planar geometry.
\<close>

lemmas planar_eval =
  planar_def planar_intersects_def planar_contains_def planar_centroid_x_def segments_meet_def
  cross3_def within_box_def ring_def ray_crosses_def shoelace_def

text \<open>
  The equations that evaluate a heatmap session.
\<close>

lemmas heat_eval =
  heatmap_session_def generate_heatmap_def heatmap_detection_def count_step_def
  record_count_def bump_in_def bump_out_def append_bounded_def bbox_center_def
  add_box_def box_fits_def box_centre_def in_int64_def frame_fits_def
  one_box_def demo_names_def Let_def

subsection \<open>The crossing test and the direction\<close>







text \<open>
  A box whose centre does not fit: the detection raises at line 127, nothing is
  counted and the history is not updated.
\<close>

lemma overflowing_box_not_counted:
  "\<not> box_fits (5, 85, 10 ^ 20, 115)
   \<and> fst (heatmap_detection planar
            (heatmap_session planar line_counter [one_box (0, 90, 20, 120)])
            ((5, 85, 10 ^ 20, 115), 0, 1)) = Some OverflowError
   \<and> count_ids (snd (heatmap_detection planar
            (heatmap_session planar line_counter [one_box (0, 90, 20, 120)])
            ((5, 85, 10 ^ 20, 115), 0, 1))) = []
   \<and> track_history (snd (heatmap_detection planar
            (heatmap_session planar line_counter [one_box (0, 90, 20, 120)])
            ((5, 85, 10 ^ 20, 115), 0, 1))) 1 = Some [(10, 105)]"
  by (simp add: heat_eval planar_eval line_counter_def)

subsection \<open>Invariants of a session\<close>

lemma heat_later_refl: "heat_later s s"
  by (simp add: heat_later_def)

lemma heat_later_trans: "heat_later s t \<Longrightarrow> heat_later t u \<Longrightarrow> heat_later s u"
  unfolding heat_later_def by blast

lemma record_count_fields:
  "count_ids (snd (record_count lib s x1 nm track_id prev)) = count_ids s @ [track_id]
   \<and> track_history (snd (record_count lib s x1 nm track_id prev)) = track_history s"
  by (simp add: record_count_def bump_in_def bump_out_def Let_def split: option.splits)

lemma count_step_cases:
  "snd (count_step lib s bx nm track_id cur pp) = s
   \<or> (track_id \<notin> set (count_ids s)
      \<and> (\<exists>prev. snd (count_step lib s bx nm track_id cur pp)
                   = snd (record_count lib s (fst bx) nm track_id prev)))"
  by (cases bx) (auto simp add: count_step_def split: option.splits)

lemma count_step_counted:
  "track_id \<in> set (count_ids s) \<Longrightarrow> snd (count_step lib s bx nm track_id cur pp) = s"
  using count_step_cases [of lib s bx nm track_id cur pp] by blast

lemma count_step_later: "heat_later s (snd (count_step lib s bx nm track_id cur pp))"
proof -
  from count_step_cases [of lib s bx nm track_id cur pp] show ?thesis
  proof (elim disjE conjE exE)
    fix prev
    assume fresh: "track_id \<notin> set (count_ids s)"
      and eq: "snd (count_step lib s bx nm track_id cur pp)
                 = snd (record_count lib s (fst bx) nm track_id prev)"
    show ?thesis
      unfolding eq heat_later_def heat_inv_def
      using fresh record_count_fields [of lib s "fst bx" nm track_id prev] by auto
  qed (simp add: heat_later_refl)
qed

lemma before_count_later:
  "heat_later s (before_count s bx nm track_id hm)"
proof -
  have "length h \<le> 30"
    if inv: "heat_inv s" and h: "track_history (before_count s bx nm track_id hm) k = Some h"
    for k h
  proof (cases "k = track_id")
    case True
    have "length (case track_history s track_id of None \<Rightarrow> [] | Some t \<Rightarrow> t) \<le> 30"
      using inv by (auto simp add: heat_inv_def split: option.splits)
    then show ?thesis
      using h True by (auto simp add: before_count_def append_bounded_length)
  next
    case False
    with h inv show ?thesis
      by (auto simp add: before_count_def heat_inv_def)
  qed
  then have "heat_inv s \<longrightarrow> heat_inv (before_count s bx nm track_id hm)"
    unfolding heat_inv_def by auto
  then show ?thesis
    by (simp add: heat_later_def)
qed

lemma heatmap_detection_shape:
  "snd (heatmap_detection lib s (bx, cls, track_id)) = s
   \<or> (\<exists>nm. snd (heatmap_detection lib s (bx, cls, track_id))
              = s\<lparr> class_wise_count := (class_wise_count s)(nm \<mapsto> (0, 0)) \<rparr>
            \<and> class_wise_count s nm = None)
   \<or> (\<exists>nm hm pp. snd (heatmap_detection lib s (bx, cls, track_id))
              = snd (count_step lib (before_count s bx nm track_id hm) bx nm track_id
                       (bbox_center bx) pp))"
proof (cases "hm_names s cls")
  case None
  then show ?thesis by (simp add: heatmap_detection_def)
next
  case (Some nm)
  have bucket: ?thesis
    if "snd (heatmap_detection lib s (bx, cls, track_id))
          = (if nm \<in> dom (class_wise_count s) then s
             else s\<lparr> class_wise_count := (class_wise_count s)(nm \<mapsto> (0, 0)) \<rparr>)"
  proof (cases "class_wise_count s nm")
    case (Some io)
    with that show ?thesis by (simp add: dom_def)
  next
    case None
    with that have "snd (heatmap_detection lib s (bx, cls, track_id))
              = s\<lparr> class_wise_count := (class_wise_count s)(nm \<mapsto> (0, 0)) \<rparr>"
      by (simp add: dom_def)
    with None show ?thesis by blast
  qed
  show ?thesis
  proof (cases "heatmap s")
    case None
    with Some show ?thesis
      by (intro bucket) (simp add: heatmap_detection_def Let_def)
  next
    case hm: (Some hm)
    from add_box_cases [of hm bx] show ?thesis
    proof (elim disjE exE conjE)
      assume "add_box hm bx = Inl OverflowError"
      with Some hm show ?thesis
        by (intro bucket) (simp add: heatmap_detection_def Let_def)
    next
      fix hm'
      assume "add_box hm bx = Inr hm'"
      with Some hm show ?thesis
        using heatmap_detection_unfold [of s cls nm hm bx hm' lib track_id] by auto
    qed
  qed
qed

lemma heatmap_detection_later: "heat_later s (snd (heatmap_detection lib s d))"
proof (cases d)
  case (fields bx cls track_id)
  from heatmap_detection_shape [of lib s bx cls track_id] show ?thesis
  proof (elim disjE exE conjE)
    assume "snd (heatmap_detection lib s (bx, cls, track_id)) = s"
    then show ?thesis by (simp add: fields heat_later_refl)
  next
    fix nm
    assume "snd (heatmap_detection lib s (bx, cls, track_id))
              = s\<lparr> class_wise_count := (class_wise_count s)(nm \<mapsto> (0, 0)) \<rparr>"
    then show ?thesis by (simp add: fields heat_later_def heat_inv_def)
  next
    fix nm hm pp
    assume eq: "snd (heatmap_detection lib s (bx, cls, track_id))
              = snd (count_step lib (before_count s bx nm track_id hm) bx nm track_id
                       (bbox_center bx) pp)"
    show ?thesis
      unfolding fields eq
      by (rule heat_later_trans [OF before_count_later count_step_later])
  qed
qed

lemma heatmap_detection_counted:
  assumes counted: "track_id \<in> set (count_ids s)"
  shows "in_counts (snd (heatmap_detection lib s (bx, cls, track_id))) = in_counts s
         \<and> out_counts (snd (heatmap_detection lib s (bx, cls, track_id))) = out_counts s
         \<and> count_ids (snd (heatmap_detection lib s (bx, cls, track_id))) = count_ids s
         \<and> class_count (snd (heatmap_detection lib s (bx, cls, track_id))) nm = class_count s nm"
proof -
  from heatmap_detection_shape [of lib s bx cls track_id] show ?thesis
  proof (elim disjE exE conjE)
    assume "snd (heatmap_detection lib s (bx, cls, track_id)) = s"
    then show ?thesis by simp
  next
    fix n
    assume "snd (heatmap_detection lib s (bx, cls, track_id))
              = s\<lparr> class_wise_count := (class_wise_count s)(n \<mapsto> (0, 0)) \<rparr>"
      and "class_wise_count s n = None"
    then show ?thesis by (simp add: class_count_def)
  next
    fix n hm pp
    assume eq: "snd (heatmap_detection lib s (bx, cls, track_id))
              = snd (count_step lib (before_count s bx n track_id hm) bx n track_id
                       (bbox_center bx) pp)"
    have "snd (count_step lib (before_count s bx n track_id hm) bx n track_id
                 (bbox_center bx) pp) = before_count s bx n track_id hm"
      by (rule count_step_counted) (simp add: counted)
    then show ?thesis
      unfolding eq by (simp add: before_count_other)
  qed
qed

lemma heatmap_loop_later: "heat_later s (snd (heatmap_loop lib s ds))"
proof (induction ds arbitrary: s)
  case Nil
  show ?case by (simp add: heat_later_refl)
next
  case (Cons d ds)
  obtain e s' where r: "heatmap_detection lib s d = (e, s')"
    by (cases "heatmap_detection lib s d")
  have step: "heat_later s s'"
    using heatmap_detection_later [of s lib d] r by simp
  show ?case
  proof (cases e)
    case None
    with r step Cons.IH [of s'] show ?thesis
      by (auto intro: heat_later_trans)
  next
    case (Some err)
    with r step show ?thesis by simp
  qed
qed

lemma untracked_loop_later: "heat_later s (snd (untracked_loop s ds))"
proof (induction ds arbitrary: s)
  case Nil
  show ?case by (simp add: heat_later_refl)
next
  case (Cons d ds)
  show ?case
  proof (cases "heatmap s")
    case None
    then show ?thesis by (simp add: heat_later_refl)
  next
    case (Some hm)
    show ?thesis
    proof (cases "add_box hm (fst d)")
      case (Inl e)
      with Some show ?thesis by (simp add: heat_later_refl)
    next
      case (Inr hm')
      have "heat_later s (s\<lparr> heatmap := Some hm' \<rparr>)"
        by (simp add: heat_later_def heat_inv_def)
      with Some Inr Cons.IH [of "s\<lparr> heatmap := Some hm' \<rparr>"] show ?thesis
        by (auto intro: heat_later_trans)
    qed
  qed
qed

lemma generate_heatmap_later: "heat_later s (snd (generate_heatmap lib fr s))"
proof -
  define s0 where
    "s0 = (if initialized s then s else s\<lparr> heatmap := Some (zeros (im0 fr)), initialized := True \<rparr>)"
  have a: "heat_later s s0"
    by (simp add: s0_def heat_later_def heat_inv_def)
  show ?thesis
  proof (cases "heatmap s0")
    case None
    with a show ?thesis
      by (simp add: generate_heatmap_def Let_def s0_def [symmetric])
  next
    case (Some hm)
    define s1 where "s1 = s0\<lparr> heatmap := Some (decay (decay_factor s0) hm) \<rparr>"
    have b: "heat_later s s1"
      using a by (simp add: s1_def heat_later_def heat_inv_def)
    show ?thesis
    proof (cases "ids fr")
      case None
      with Some b show ?thesis
        by (simp add: generate_heatmap_def Let_def s0_def [symmetric] s1_def [symmetric])
    next
      case (Some track_ids)
      define res where
        "res = (if track_ids \<noteq> []
                then heatmap_loop lib s1 (zip (xyxy fr) (zip (clss fr) track_ids))
                else untracked_loop s1 (zip (xyxy fr) (clss fr)))"
      have c: "heat_later s1 (snd res)"
        by (simp add: res_def heatmap_loop_later untracked_loop_later)
      have "snd (generate_heatmap lib fr s) = snd res"
        using Some \<open>heatmap s0 = Some hm\<close>
        by (cases res; cases "fst res")
           (auto simp add: generate_heatmap_def Let_def s0_def [symmetric] s1_def [symmetric]
              res_def [symmetric])
      with heat_later_trans [OF b c] show ?thesis by simp
    qed
  qed
qed

lemma heatmap_session_later: "heat_later s (heatmap_session lib s frs)"
proof (induction frs arbitrary: s)
  case Nil
  show ?case by (simp add: heatmap_session_def heat_later_refl)
next
  case (Cons fr frs)
  have "heat_later (snd (generate_heatmap lib fr s))
          (heatmap_session lib (snd (generate_heatmap lib fr s)) frs)"
    by (rule Cons.IH)
  with generate_heatmap_later [of s lib fr] show ?case
    by (auto simp add: heatmap_session_def intro: heat_later_trans)
qed

lemma Heatmap_init_inv:
  "snd (Heatmap_init nms view pts dec envc) = Inr h0 \<Longrightarrow> heat_inv h0"
  by (auto simp add: Heatmap_init_def Let_def heat_inv_def split: option.splits if_splits sum.splits)

lemma count_step_history:
  "track_history (snd (count_step lib s bx nm track_id cur pp)) = track_history s"
  using count_step_cases [of lib s bx nm track_id cur pp] record_count_fields
  by (auto simp del: split_paired_Ex)

lemma session_heat_inv:
  "snd (Heatmap_init nms view pts dec envc) = Inr h0 \<Longrightarrow> heat_inv (heatmap_session lib h0 frs)"
  using heatmap_session_later [of h0 lib frs] Heatmap_init_inv [of nms view pts dec envc h0]
  by (simp add: heat_later_def)

text \<open>
  Claim C2: a track id is counted at most once.  In every state \<open>t\<close> of a session
  that follows a state \<open>s\<close> in which the id is counted, the counted ids are
  distinct and the id is still among them.  In whatever state \<open>u\<close> the id is
  counted (between two detections of one frame as well), a detection of that id,
  whatever its box and class, leaves both totals, the counted ids and every
  per-class counter as they are (a bucket created for a class seen for the first
  time holds zeros), and any detection \<open>d\<close> keeps the id counted.
\<close>

theorem counted_at_most_once:
  assumes init: "snd (Heatmap_init nms view pts dec envc) = Inr h0"
    and s: "s = heatmap_session lib h0 frs"
    and counted: "track_id \<in> set (count_ids s)"
    and t: "t = heatmap_session lib s rest"
    and u: "track_id \<in> set (count_ids u)"
  shows "distinct (count_ids t) \<and> track_id \<in> set (count_ids t)
         \<and> in_counts (snd (heatmap_detection lib u (bx, cls, track_id))) = in_counts u
         \<and> out_counts (snd (heatmap_detection lib u (bx, cls, track_id))) = out_counts u
         \<and> count_ids (snd (heatmap_detection lib u (bx, cls, track_id))) = count_ids u
         \<and> (\<forall>nm. class_count (snd (heatmap_detection lib u (bx, cls, track_id))) nm
                  = class_count u nm)
         \<and> track_id \<in> set (count_ids (snd (heatmap_detection lib u d)))"
proof -
  have "t = heatmap_session lib h0 (frs @ rest)"
    by (simp add: t s heatmap_session_def)
  with init have "heat_inv t"
    by (simp add: session_heat_inv)
  then have a: "distinct (count_ids t)"
    by (simp add: heat_inv_def)
  have "heat_later s t"
    unfolding t by (rule heatmap_session_later)
  with counted have b: "track_id \<in> set (count_ids t)"
    by (auto simp add: heat_later_def)
  have "heat_later u (snd (heatmap_detection lib u d))"
    by (rule heatmap_detection_later)
  with u have c: "track_id \<in> set (count_ids (snd (heatmap_detection lib u d)))"
    by (auto simp add: heat_later_def)
  from a b c heatmap_detection_counted [OF u, of lib bx cls] show ?thesis
    by simp
qed

text \<open>
  Track 1 crosses the line and is counted; it moves back, and then crosses again
  from (50, 110) to the corner (40, 80): nothing is counted.
\<close>

theorem counted_at_most_once_witness:
  "1 \<in> set (count_ids (heatmap_session planar line_counter crossing_frames))
   \<and> distinct (count_ids (heatmap_session planar
        (heatmap_session planar line_counter crossing_frames) [one_box (40, 95, 60, 125)]))
   \<and> 1 \<in> set (count_ids (heatmap_session planar
        (heatmap_session planar line_counter crossing_frames) [one_box (40, 95, 60, 125)]))
   \<and> intersects planar (LineString [(50, 110), (40, 80)]) (LineString [(0, 100), (200, 100)])
   \<and> in_counts (snd (heatmap_detection planar
        (heatmap_session planar line_counter (crossing_frames @ [one_box (40, 95, 60, 125)]))
        ((40, 80, 60, 110), 0, 1)))
      = in_counts (heatmap_session planar line_counter
          (crossing_frames @ [one_box (40, 95, 60, 125)]))
   \<and> out_counts (snd (heatmap_detection planar
        (heatmap_session planar line_counter (crossing_frames @ [one_box (40, 95, 60, 125)]))
        ((40, 80, 60, 110), 0, 1)))
      = out_counts (heatmap_session planar line_counter
          (crossing_frames @ [one_box (40, 95, 60, 125)]))
   \<and> count_ids (snd (heatmap_detection planar
        (heatmap_session planar line_counter (crossing_frames @ [one_box (40, 95, 60, 125)]))
        ((40, 80, 60, 110), 0, 1))) = [1]"
proof -
  let ?u = "heatmap_session planar line_counter (crossing_frames @ [one_box (40, 95, 60, 125)])"
  have counted: "1 \<in> set (count_ids (heatmap_session planar line_counter crossing_frames))"
    and u: "1 \<in> set (count_ids ?u)" and ids: "count_ids ?u = [1]"
    and crosses: "intersects planar (LineString [(50, 110), (40, 80)])
                    (LineString [(0, 100), (200, 100)])"
    by (simp_all add: heat_eval planar_eval line_counter_def crossing_frames_def)
  from counted_at_most_once [OF line_counter_init refl counted refl u,
         where bx = "(40, 80, 60, 110)" and cls = 0]
    counted crosses ids
  show ?thesis by simp
qed

text \<open>
  The heatmap half of what claim C9 describes.  In every state \<open>t\<close> of a heatmap
  session every history has at most 30 entries.  In whatever state \<open>u\<close> the
  histories are so bounded, a detection that reaches line 135 (its class is a key
  of \<open>names\<close>, its box centre fits the grid of line 127) replaces the history of
  its track by itself, without its head when it held 30 entries, followed by the
  centroid of the box; it touches no other track, and the histories stay bounded.
\<close>

lemma heatmap_history_bounded_fifo:
  assumes init: "snd (Heatmap_init nms view pts dec envc) = Inr h0"
    and t: "t = heatmap_session lib h0 frs"
    and bounded: "\<forall>k h. track_history u k = Some h \<longrightarrow> length h \<le> 30"
    and nm: "hm_names u cls \<noteq> None" and alloc: "heatmap u \<noteq> None"
    and fits: "box_fits bx"
    and old: "old = (case track_history u track_id of None \<Rightarrow> [] | Some h \<Rightarrow> h)"
  shows "(\<forall>k h. track_history t k = Some h \<longrightarrow> length h \<le> 30)
         \<and> track_history (snd (heatmap_detection lib u (bx, cls, track_id))) track_id
             = Some (if length old = 30 then tl old @ [bbox_center bx]
                     else old @ [bbox_center bx])
         \<and> (\<forall>k. k \<noteq> track_id \<longrightarrow>
               track_history (snd (heatmap_detection lib u (bx, cls, track_id))) k
                 = track_history u k)
         \<and> (\<forall>k h. track_history (snd (heatmap_detection lib u (bx, cls, track_id))) k = Some h
                   \<longrightarrow> length h \<le> 30)"
proof -
  from nm obtain n where n: "hm_names u cls = Some n" by auto
  from alloc obtain hm0 where hm0: "heatmap u = Some hm0" by auto
  from add_box_fits [OF fits, of hm0] obtain hm where hm: "add_box hm0 bx = Inr hm"
    by blast
  have "heat_inv t"
    unfolding t using init by (rule session_heat_inv)
  then have reach: "\<forall>k h. track_history t k = Some h \<longrightarrow> length h \<le> 30"
    by (simp add: heat_inv_def)
  from bounded have len: "length old \<le> 30"
    by (auto simp add: old split: option.splits)
  have hist: "track_history (snd (heatmap_detection lib u (bx, cls, track_id)))
                = (track_history u)(track_id \<mapsto> append_bounded old (bbox_center bx))"
    unfolding heatmap_detection_unfold [OF n hm0 hm] count_step_history
    by (simp add: before_count_def old)
  have after: "\<forall>k h. track_history (snd (heatmap_detection lib u (bx, cls, track_id))) k = Some h
                   \<longrightarrow> length h \<le> 30"
    using bounded append_bounded_length [OF len, of "bbox_center bx"]
    by (auto simp add: hist)
  have upd: "track_history (snd (heatmap_detection lib u (bx, cls, track_id))) track_id
             = Some (if length old = 30 then tl old @ [bbox_center bx]
                     else old @ [bbox_center bx])"
    by (simp add: hist append_bounded_fifo [OF len])
  have others: "\<forall>k. k \<noteq> track_id \<longrightarrow>
               track_history (snd (heatmap_detection lib u (bx, cls, track_id))) k
                 = track_history u k"
    by (simp add: hist)
  from reach upd others after show ?thesis
    by (intro conjI)
qed

text \<open>
  After thirty frames at centroid (5, 5) the history is full; the next detection
  drops one (5, 5) and appends (15, 15).
\<close>

lemma heatmap_history_bounded_fifo_example:
  "track_history (heatmap_session planar plain_heatmap steady_frames) 1
     = Some (replicate 30 (5, 5))
   \<and> length (replicate 30 ((5, 5) :: point)) \<le> 30
   \<and> track_history (snd (heatmap_detection planar
         (heatmap_session planar plain_heatmap steady_frames) ((10, 10, 20, 20), 0, 1))) 1
       = Some (replicate 29 (5, 5) @ [(15, 15)])
   \<and> length (replicate 29 ((5, 5) :: point) @ [(15, 15)]) \<le> 30
   \<and> track_history (snd (heatmap_detection planar
         (heatmap_session planar plain_heatmap steady_frames) ((10, 10, 20, 20), 0, 1))) 2
       = track_history (heatmap_session planar plain_heatmap steady_frames) 2"
proof -
  let ?t = "heatmap_session planar plain_heatmap steady_frames"
  have hist: "track_history ?t 1 = Some (replicate 30 (5, 5))"
    by (simp add: heat_eval plain_heatmap_def steady_frames_def eval_nat_numeral)
  have nm: "hm_names ?t 0 \<noteq> None" and alloc: "heatmap ?t \<noteq> None"
    by (simp_all add: heat_eval plain_heatmap_def steady_frames_def eval_nat_numeral)
  have fits: "box_fits (10, 10, 20, 20)"
    by (simp add: box_fits_def box_centre_def in_int64_def)
  have old: "replicate 30 ((5, 5) :: point)
               = (case track_history ?t 1 of None \<Rightarrow> [] | Some h \<Rightarrow> h)"
    by (simp add: hist)
  have tl30: "tl (replicate 30 ((5, 5) :: point)) = replicate 29 (5, 5)"
    by (simp add: eval_nat_numeral)
  have bounded: "\<forall>k h. track_history ?t k = Some h \<longrightarrow> length h \<le> 30"
    using session_heat_inv [OF plain_heatmap_init, of planar steady_frames]
    by (simp add: heat_inv_def)
  from heatmap_history_bounded_fifo [OF plain_heatmap_init refl bounded nm alloc fits old,
         where lib = planar and frs = steady_frames]
    hist
  show ?thesis
    by (simp add: tl30 bbox_center_def)
qed

subsection \<open>Frames without track ids\<close>

text \<open>
  Claim C3 says that \<open>generate_heatmap\<close> returns normally on a frame whose
  \<open>boxes.id\<close> is \<open>None\<close>, having decayed the buffer.  The code decays the buffer
  and then raises: \<open>boxes\<close> and \<open>clss\<close> are still \<open>None\<close> when the \<open>else\<close>
  branch of line 176 zips them, so every such call ends in a \<open>TypeError\<close>.
\<close>

theorem absent_ids_type_error:
  "fst (generate_heatmap lib (fr\<lparr> ids := None \<rparr>) s) = Inl TypeError"
  by (simp add: generate_heatmap_def Let_def split: option.splits)

text \<open>
  The decay of line 102 has happened by then, and it stays.
\<close>

lemma absent_ids_still_decays:
  "initialized s \<Longrightarrow> heatmap s = Some hm \<Longrightarrow>
   snd (generate_heatmap lib (fr\<lparr> ids := None \<rparr>) s)
     = s\<lparr> heatmap := Some (decay (decay_factor s) hm) \<rparr>"
  by (simp add: generate_heatmap_def Let_def)

text \<open>
  A frame whose id list is present but empty meets no \<open>TypeError\<close> and leaves the
  decayed buffer as well.
\<close>

lemma no_boxes_frame_decays:
  "initialized s \<Longrightarrow> heatmap s = Some hm \<Longrightarrow>
   snd (generate_heatmap lib (fr\<lparr> ids := Some [], xyxy := [] \<rparr>) s)
     = s\<lparr> heatmap := Some (decay (decay_factor s) hm) \<rparr>
   \<and> fst (generate_heatmap lib (fr\<lparr> ids := Some [], xyxy := [] \<rparr>) s) \<noteq> Inl TypeError"
  by (simp add: generate_heatmap_def Let_def)

text \<open>
  On a frame without detections the call, whether it returns or raises, leaves the
  object as it was but for the decayed buffer.
\<close>

lemma generate_heatmap_quiet:
  "initialized s \<Longrightarrow> heatmap s = Some hm \<Longrightarrow> quiet_frame fr \<Longrightarrow>
   snd (generate_heatmap lib fr s) = s\<lparr> heatmap := Some (decay (decay_factor s) hm) \<rparr>"
  by (auto simp add: generate_heatmap_def quiet_frame_def Let_def split: option.splits)

text \<open>
  Hence the power law: after \<open>N\<close> frames without detections every cell is its
  starting value times \<open>decay_factor ^ N\<close> (over the reals; float32 rounds).
\<close>

lemma decay_power_law:
  "initialized s \<Longrightarrow> heatmap s = Some hm \<Longrightarrow> list_all quiet_frame frs \<Longrightarrow>
   heatmap_session lib s frs
     = s\<lparr> heatmap := Some (hm\<lparr> cell := (\<lambda>r c. cell hm r c * decay_factor s ^ length frs) \<rparr>) \<rparr>"
proof (induction frs arbitrary: s hm)
  case Nil
  then show ?case by (cases s) (simp add: heatmap_session_def)
next
  case (Cons fr frs)
  let ?s1 = "s\<lparr> heatmap := Some (decay (decay_factor s) hm) \<rparr>"
  from Cons.prems have step: "snd (generate_heatmap lib fr s) = ?s1"
    by (simp add: generate_heatmap_quiet)
  have "heatmap_session lib ?s1 frs
          = ?s1\<lparr> heatmap := Some ((decay (decay_factor s) hm)
               \<lparr> cell := (\<lambda>r c. cell (decay (decay_factor s) hm) r c
                                  * decay_factor ?s1 ^ length frs) \<rparr>) \<rparr>"
    using Cons.prems by (intro Cons.IH) simp_all
  then show ?case
    by (simp add: heatmap_session_def step decay_def mult.assoc)
qed

subsection \<open>Regions of fewer than two points\<close>

text \<open>
  Claim C4 says that a region of fewer than 2 points is reported and does not crash
  the construction.  With exactly one point the two lines of the warning are
  printed and then line 85 passes the single point to \<open>LineString\<close>, which
  rejects it: the constructor raises and no object is built.
\<close>

theorem single_point_region_crashes:
  "Heatmap_init nms view (Some [p]) dec envc =
     ([''Invalid Region points provided, region_points must be 2 for lines or >= 3 for polygons.'',
       ''Using Line Counter Now''],
      Inl GEOSException)"
  by (simp add: Heatmap_init_def new_LineString_def Let_def)

text \<open>
  With no point at all the warning is printed and the object is built.
\<close>

lemma empty_region_constructs:
  "\<exists>h0. Heatmap_init nms view (Some []) dec envc =
     ([''Invalid Region points provided, region_points must be 2 for lines or >= 3 for polygons.'',
       ''Using Line Counter Now''],
      Inr h0)"
  by (simp add: Heatmap_init_def new_LineString_def Let_def)

lemma same_counts_refl: "same_counts s s"
  by (simp add: same_counts_def)

lemma same_counts_trans: "same_counts s t \<Longrightarrow> same_counts t u \<Longrightarrow> same_counts s u"
  by (simp add: same_counts_def)

lemma same_counts_off: "same_counts s t \<Longrightarrow> counting_off s \<Longrightarrow> counting_off t"
  by (simp add: same_counts_def counting_off_def)

lemma count_step_off:
  "counting_off s \<Longrightarrow> count_step lib s bx nm track_id cur pp = (None, s)"
  by (cases bx) (auto simp add: counting_off_def count_step_def split: option.splits)

lemma heatmap_detection_off:
  assumes off: "counting_off s"
  shows "same_counts s (snd (heatmap_detection lib s d))"
proof (cases d)
  case (fields bx cls track_id)
  from heatmap_detection_shape [of lib s bx cls track_id] show ?thesis
  proof (elim disjE exE conjE)
    assume "snd (heatmap_detection lib s (bx, cls, track_id)) = s"
    then show ?thesis by (simp add: fields same_counts_refl)
  next
    fix nm
    assume "snd (heatmap_detection lib s (bx, cls, track_id))
              = s\<lparr> class_wise_count := (class_wise_count s)(nm \<mapsto> (0, 0)) \<rparr>"
      and "class_wise_count s nm = None"
    then show ?thesis by (simp add: fields same_counts_def class_count_def)
  next
    fix nm hm pp
    assume eq: "snd (heatmap_detection lib s (bx, cls, track_id))
              = snd (count_step lib (before_count s bx nm track_id hm) bx nm track_id
                       (bbox_center bx) pp)"
    have "counting_off (before_count s bx nm track_id hm)"
      using off by (simp add: counting_off_def)
    then show ?thesis
      unfolding fields eq
      by (simp add: count_step_off same_counts_def before_count_other)
  qed
qed

lemma heatmap_loop_off:
  "counting_off s \<Longrightarrow> same_counts s (snd (heatmap_loop lib s ds))"
proof (induction ds arbitrary: s)
  case Nil
  show ?case by (simp add: same_counts_refl)
next
  case (Cons d ds)
  obtain e s' where r: "heatmap_detection lib s d = (e, s')"
    by (cases "heatmap_detection lib s d")
  have step: "same_counts s s'"
    using heatmap_detection_off [OF Cons.prems, of lib d] r by simp
  show ?case
  proof (cases e)
    case None
    from step Cons.prems have "counting_off s'" by (rule same_counts_off)
    then have "same_counts s' (snd (heatmap_loop lib s' ds))" by (rule Cons.IH)
    with None r step show ?thesis
      by (auto intro: same_counts_trans)
  next
    case (Some err)
    with r step show ?thesis by simp
  qed
qed

lemma untracked_loop_counts: "same_counts s (snd (untracked_loop s ds))"
proof (induction ds arbitrary: s)
  case Nil
  show ?case by (simp add: same_counts_refl)
next
  case (Cons d ds)
  show ?case
  proof (cases "heatmap s")
    case None
    then show ?thesis by (simp add: same_counts_refl)
  next
    case (Some hm)
    show ?thesis
    proof (cases "add_box hm (fst d)")
      case (Inl e)
      with Some show ?thesis by (simp add: same_counts_refl)
    next
      case (Inr hm')
      have "same_counts s (s\<lparr> heatmap := Some hm' \<rparr>)"
        by (simp add: same_counts_def class_count_def)
      with Some Inr Cons.IH [of "s\<lparr> heatmap := Some hm' \<rparr>"] show ?thesis
        by (auto intro: same_counts_trans)
    qed
  qed
qed

lemma generate_heatmap_off:
  assumes off: "counting_off s"
  shows "same_counts s (snd (generate_heatmap lib fr s))"
proof -
  define s0 where
    "s0 = (if initialized s then s else s\<lparr> heatmap := Some (zeros (im0 fr)), initialized := True \<rparr>)"
  have a: "same_counts s s0"
    by (simp add: s0_def same_counts_def class_count_def)
  show ?thesis
  proof (cases "heatmap s0")
    case None
    with a show ?thesis
      by (simp add: generate_heatmap_def Let_def s0_def [symmetric])
  next
    case (Some hm)
    define s1 where "s1 = s0\<lparr> heatmap := Some (decay (decay_factor s0) hm) \<rparr>"
    have b: "same_counts s s1"
      using a by (simp add: s1_def same_counts_def class_count_def)
    then have off1: "counting_off s1"
      using off by (rule same_counts_off)
    show ?thesis
    proof (cases "ids fr")
      case None
      with Some b show ?thesis
        by (simp add: generate_heatmap_def Let_def s0_def [symmetric] s1_def [symmetric])
    next
      case (Some track_ids)
      define res where
        "res = (if track_ids \<noteq> []
                then heatmap_loop lib s1 (zip (xyxy fr) (zip (clss fr) track_ids))
                else untracked_loop s1 (zip (xyxy fr) (clss fr)))"
      have c: "same_counts s1 (snd res)"
        using off1 by (simp add: res_def heatmap_loop_off untracked_loop_counts)
      have "snd (generate_heatmap lib fr s) = snd res"
        using Some \<open>heatmap s0 = Some hm\<close>
        by (cases res; cases "fst res")
           (auto simp add: generate_heatmap_def Let_def s0_def [symmetric] s1_def [symmetric]
              res_def [symmetric])
      with same_counts_trans [OF b c] show ?thesis by simp
    qed
  qed
qed

lemma heatmap_session_off:
  "counting_off s \<Longrightarrow> same_counts s (heatmap_session lib s frs)"
proof (induction frs arbitrary: s)
  case Nil
  show ?case by (simp add: heatmap_session_def same_counts_refl)
next
  case (Cons fr frs)
  have step: "same_counts s (snd (generate_heatmap lib fr s))"
    using Cons.prems by (rule generate_heatmap_off)
  then have "counting_off (snd (generate_heatmap lib fr s))"
    using Cons.prems by (rule same_counts_off)
  then have "same_counts (snd (generate_heatmap lib fr s))
               (heatmap_session lib (snd (generate_heatmap lib fr s)) frs)"
    by (rule Cons.IH)
  with step show ?case
    by (auto simp add: heatmap_session_def intro: same_counts_trans)
qed

text \<open>
  The rest of claim C4 is how the code behaves whenever the construction succeeds:
  with fewer than two region points no frame ever counts.
\<close>

lemma short_region_never_counts:
  assumes init: "snd (Heatmap_init nms view (Some pts) dec envc) = Inr h0"
    and short: "length pts < 2"
  shows "in_counts (heatmap_session lib h0 frs) = 0
         \<and> out_counts (heatmap_session lib h0 frs) = 0
         \<and> count_ids (heatmap_session lib h0 frs) = []
         \<and> class_count (heatmap_session lib h0 frs) nm = (0, 0)"
proof -
  from init short have h0: "counting_off h0 \<and> in_counts h0 = 0 \<and> out_counts h0 = 0
      \<and> count_ids h0 = [] \<and> class_wise_count h0 = Map.empty"
    by (auto simp add: Heatmap_init_def Let_def counting_off_def split: sum.splits if_splits)
  then have "same_counts h0 (heatmap_session lib h0 frs)"
    by (simp add: heatmap_session_off)
  with h0 show ?thesis
    by (simp add: same_counts_def class_count_def)
qed

subsection \<open>Frames with tracked detections\<close>

lemma same_config_refl: "same_config s s"
  by (simp add: same_config_def)

lemma same_config_trans: "same_config s t \<Longrightarrow> same_config t u \<Longrightarrow> same_config s u"
  by (simp add: same_config_def)

lemma same_config_region_ok: "same_config s t \<Longrightarrow> region_ok s \<Longrightarrow> region_ok t"
  by (auto simp add: same_config_def region_ok_def split: option.splits)

lemma record_count_config: "same_config s (snd (record_count lib s x1 nm track_id prev))"
  by (simp add: record_count_def bump_in_def bump_out_def Let_def same_config_def
        split: option.splits)

lemma count_step_config: "same_config s (snd (count_step lib s bx nm track_id cur pp))"
  using count_step_cases [of lib s bx nm track_id cur pp] record_count_config
  by (auto simp add: same_config_refl simp del: split_paired_Ex)

lemma before_count_config: "same_config s (before_count s bx nm track_id hm)"
  by (simp add: same_config_def before_count_def)

lemma heatmap_detection_config: "same_config s (snd (heatmap_detection lib s d))"
proof (cases d)
  case (fields bx cls track_id)
  from heatmap_detection_shape [of lib s bx cls track_id] show ?thesis
  proof (elim disjE exE conjE)
    assume "snd (heatmap_detection lib s (bx, cls, track_id)) = s"
    then show ?thesis by (simp add: fields same_config_refl)
  next
    fix nm
    assume "snd (heatmap_detection lib s (bx, cls, track_id))
              = s\<lparr> class_wise_count := (class_wise_count s)(nm \<mapsto> (0, 0)) \<rparr>"
    then show ?thesis by (simp add: fields same_config_def)
  next
    fix nm hm pp
    assume eq: "snd (heatmap_detection lib s (bx, cls, track_id))
              = snd (count_step lib (before_count s bx nm track_id hm) bx nm track_id
                       (bbox_center bx) pp)"
    show ?thesis
      unfolding fields eq
      by (rule same_config_trans [OF before_count_config count_step_config])
  qed
qed

lemma heatmap_loop_config: "same_config s (snd (heatmap_loop lib s ds))"
proof (induction ds arbitrary: s)
  case Nil
  show ?case by (simp add: same_config_refl)
next
  case (Cons d ds)
  obtain e s' where r: "heatmap_detection lib s d = (e, s')"
    by (cases "heatmap_detection lib s d")
  have step: "same_config s s'"
    using heatmap_detection_config [of s lib d] r by simp
  show ?case
  proof (cases e)
    case None
    with r step Cons.IH [of s'] show ?thesis
      by (auto intro: same_config_trans)
  next
    case (Some err)
    with r step show ?thesis by simp
  qed
qed

lemma untracked_loop_config: "same_config s (snd (untracked_loop s ds))"
proof (induction ds arbitrary: s)
  case Nil
  show ?case by (simp add: same_config_refl)
next
  case (Cons d ds)
  show ?case
  proof (cases "heatmap s")
    case None
    then show ?thesis by (simp add: same_config_refl)
  next
    case (Some hm)
    show ?thesis
    proof (cases "add_box hm (fst d)")
      case (Inl e)
      with Some show ?thesis by (simp add: same_config_refl)
    next
      case (Inr hm')
      have "same_config s (s\<lparr> heatmap := Some hm' \<rparr>)"
        by (simp add: same_config_def)
      with Some Inr Cons.IH [of "s\<lparr> heatmap := Some hm' \<rparr>"] show ?thesis
        by (auto intro: same_config_trans)
    qed
  qed
qed

lemma generate_heatmap_config: "same_config s (snd (generate_heatmap lib fr s))"
proof -
  define s0 where
    "s0 = (if initialized s then s else s\<lparr> heatmap := Some (zeros (im0 fr)), initialized := True \<rparr>)"
  have a: "same_config s s0"
    by (simp add: s0_def same_config_def)
  show ?thesis
  proof (cases "heatmap s0")
    case None
    with a show ?thesis
      by (simp add: generate_heatmap_def Let_def s0_def [symmetric])
  next
    case (Some hm)
    define s1 where "s1 = s0\<lparr> heatmap := Some (decay (decay_factor s0) hm) \<rparr>"
    have b: "same_config s s1"
      using a by (simp add: s1_def same_config_def)
    show ?thesis
    proof (cases "ids fr")
      case None
      with Some b show ?thesis
        by (simp add: generate_heatmap_def Let_def s0_def [symmetric] s1_def [symmetric])
    next
      case (Some track_ids)
      define res where
        "res = (if track_ids \<noteq> []
                then heatmap_loop lib s1 (zip (xyxy fr) (zip (clss fr) track_ids))
                else untracked_loop s1 (zip (xyxy fr) (clss fr)))"
      have c: "same_config s1 (snd res)"
        by (simp add: res_def heatmap_loop_config untracked_loop_config)
      have "snd (generate_heatmap lib fr s) = snd res"
        using Some \<open>heatmap s0 = Some hm\<close>
        by (cases res; cases "fst res")
           (auto simp add: generate_heatmap_def Let_def s0_def [symmetric] s1_def [symmetric]
              res_def [symmetric])
      with same_config_trans [OF b c] show ?thesis by simp
    qed
  qed
qed

lemma heatmap_session_config: "same_config s (heatmap_session lib s frs)"
proof (induction frs arbitrary: s)
  case Nil
  show ?case by (simp add: heatmap_session_def same_config_refl)
next
  case (Cons fr frs)
  have "same_config (snd (generate_heatmap lib fr s))
          (heatmap_session lib (snd (generate_heatmap lib fr s)) frs)"
    by (rule Cons.IH)
  with generate_heatmap_config [of s lib fr] show ?case
    by (auto simp add: heatmap_session_def intro: same_config_trans)
qed

lemma record_count_returns:
  "counting_region s \<noteq> None \<Longrightarrow> class_wise_count s nm \<noteq> None \<Longrightarrow>
   fst (record_count lib s x1 nm track_id prev) = None"
  by (auto simp add: record_count_def bump_in_def bump_out_def Let_def)

lemma count_step_returns:
  "region_ok s \<Longrightarrow> class_wise_count s nm \<noteq> None \<Longrightarrow>
   fst (count_step lib s bx nm track_id cur pp) = None"
  by (cases bx)
     (auto simp add: count_step_def region_ok_def record_count_returns split: option.splits)

lemma count_step_heatmap:
  "heatmap (snd (count_step lib s bx nm track_id cur pp)) = heatmap s"
proof -
  have "heatmap (snd (record_count lib s x1 nm track_id prev)) = heatmap s" for x1 prev
    by (simp add: record_count_def bump_in_def bump_out_def Let_def split: option.splits)
  with count_step_cases [of lib s bx nm track_id cur pp] show ?thesis
    by (auto simp del: split_paired_Ex)
qed

lemma heatmap_detection_returns:
  assumes ok: "region_ok s" and nm: "hm_names s cls \<noteq> None" and alloc: "heatmap s \<noteq> None"
    and fits: "box_fits bx"
  shows "fst (heatmap_detection lib s (bx, cls, track_id)) = None
         \<and> (frame_fits fr s \<longrightarrow> frame_fits fr (snd (heatmap_detection lib s (bx, cls, track_id))))"
proof -
  from nm obtain n where n: "hm_names s cls = Some n" by auto
  from alloc obtain hm0 where hm0: "heatmap s = Some hm0" by auto
  from add_box_fits [OF fits, of hm0] obtain hm where hm: "add_box hm0 bx = Inr hm"
    and shape: "rows hm = rows hm0" "cols hm = cols hm0"
    by blast
  let ?b = "before_count s bx n track_id hm"
  have "region_ok ?b"
    using before_count_config ok by (rule same_config_region_ok)
  moreover have "class_wise_count ?b n \<noteq> None"
    by (simp add: before_count_bucket)
  ultimately have "fst (heatmap_detection lib s (bx, cls, track_id)) = None"
    unfolding heatmap_detection_unfold [OF n hm0 hm] by (rule count_step_returns)
  moreover have "heatmap (snd (heatmap_detection lib s (bx, cls, track_id))) = Some hm"
    unfolding heatmap_detection_unfold [OF n hm0 hm] count_step_heatmap
    by (simp add: before_count_def)
  ultimately show ?thesis
    by (simp add: frame_fits_def hm0 shape)
qed

lemma heatmap_loop_returns:
  "region_ok s \<Longrightarrow> heatmap s \<noteq> None \<Longrightarrow>
   list_all (\<lambda>d. hm_names s (fst (snd d)) \<noteq> None \<and> box_fits (fst d)) ds \<Longrightarrow>
   fst (heatmap_loop lib s ds) = None
   \<and> (frame_fits fr s \<longrightarrow> frame_fits fr (snd (heatmap_loop lib s ds)))"
proof (induction ds arbitrary: s)
  case Nil
  show ?case by simp
next
  case (Cons d ds)
  obtain bx cls track_id where d: "d = (bx, cls, track_id)" by (cases d)
  obtain e s' where r: "heatmap_detection lib s d = (e, s')"
    by (cases "heatmap_detection lib s d")
  from Cons.prems have "hm_names s cls \<noteq> None" and "box_fits bx" by (simp_all add: d)
  with Cons.prems heatmap_detection_returns [of s cls bx lib track_id fr] r
  have e: "e = None" and fit: "frame_fits fr s \<longrightarrow> frame_fits fr s'"
    by (simp_all add: d)
  have config: "same_config s s'"
    using heatmap_detection_config [of s lib d] r by simp
  with Cons.prems have "region_ok s'" and "heatmap s' \<noteq> None"
    and "list_all (\<lambda>d. hm_names s' (fst (snd d)) \<noteq> None \<and> box_fits (fst d)) ds"
    by (auto simp add: same_config_region_ok same_config_def)
  then have "fst (heatmap_loop lib s' ds) = None
             \<and> (frame_fits fr s' \<longrightarrow> frame_fits fr (snd (heatmap_loop lib s' ds)))"
    by (rule Cons.IH)
  with e r fit show ?case by simp
qed

text \<open>
  In every state of a session the region geometries exist, the names are those given
  to \<open>__init__\<close>, and the buffer is allocated once \<open>initialized\<close> is set.
\<close>

lemma session_ready:
  assumes init: "snd (Heatmap_init nms view pts dec envc) = Inr h0"
  shows "region_ok (heatmap_session lib h0 frs)
         \<and> hm_names (heatmap_session lib h0 frs) = nms
         \<and> \<not> (initialized (heatmap_session lib h0 frs)
               \<and> heatmap (heatmap_session lib h0 frs) = None)"
proof -
  from init have h0: "region_ok h0 \<and> hm_names h0 = nms \<and> \<not> initialized h0"
    by (auto simp add: Heatmap_init_def Let_def region_ok_def new_LineString_def
          split: option.splits if_splits)
  moreover have config: "same_config h0 (heatmap_session lib h0 frs)"
    by (rule heatmap_session_config)
  ultimately have "region_ok (heatmap_session lib h0 frs)"
    using same_config_region_ok by blast
  moreover have "hm_names (heatmap_session lib h0 frs) = nms"
    and "\<not> (initialized (heatmap_session lib h0 frs)
               \<and> heatmap (heatmap_session lib h0 frs) = None)"
    using config h0 by (auto simp add: same_config_def)
  ultimately show ?thesis by simp
qed

text \<open>
  The heatmap half of what claim C1 describes holds under three conditions.  In
  every state of a session, on a frame with tracked detections whose class ids are
  keys of \<open>names\<close>, whose box centres fit the grid of line 127 and whose shape is
  that of the buffer, \<open>generate_heatmap\<close> raises nothing and returns the image (or
  \<open>None\<close> after the key q in an open window).
\<close>

lemma generate_heatmap_returns:
  assumes init: "snd (Heatmap_init nms view pts dec envc) = Inr h0"
    and t: "t = heatmap_session lib h0 frs"
    and tracked: "ids fr = Some track_ids" "track_ids \<noteq> []"
    and known: "list_all (\<lambda>c. nms c \<noteq> None) (clss fr)"
    and boxes: "list_all box_fits (xyxy fr)"
    and shape: "initialized t \<longrightarrow> frame_fits fr t"
  shows "fst (generate_heatmap lib fr t)
           = Inr (if hm_env_check t \<and> hm_view_img t \<and> pressed_q (key fr) then None
                  else Some (im0 fr))"
proof -
  from session_ready [OF init, of lib frs]
  have ok: "region_ok t" and nms: "hm_names t = nms"
    by (simp_all add: t)
  define s0 where
    "s0 = (if initialized t then t else t\<lparr> heatmap := Some (zeros (im0 fr)), initialized := True \<rparr>)"
  from shape have fit0: "frame_fits fr s0"
    by (simp add: s0_def frame_fits_def zeros_def)
  then obtain hm where hm: "heatmap s0 = Some hm"
    by (auto simp add: frame_fits_def split: option.splits)
  define s1 where "s1 = s0\<lparr> heatmap := Some (decay (decay_factor s0) hm) \<rparr>"
  have c1: "same_config t s1"
    by (simp add: s1_def s0_def same_config_def)
  then have ok1: "region_ok s1"
    using ok by (rule same_config_region_ok)
  have fit1: "frame_fits fr s1"
    using fit0 by (simp add: s1_def frame_fits_def hm decay_def)
  have "list_all (\<lambda>d. nms (fst (snd d)) \<noteq> None \<and> box_fits (fst d))
          (zip (xyxy fr) (zip (clss fr) track_ids))"
  proof -
    have "nms (fst (snd d)) \<noteq> None \<and> box_fits (fst d)"
      if "d \<in> set (zip (xyxy fr) (zip (clss fr) track_ids))" for d
    proof -
      obtain bx cls track_id where d: "d = (bx, cls, track_id)" by (cases d)
      from that have "(cls, track_id) \<in> set (zip (clss fr) track_ids)"
        unfolding d by (rule set_zip_rightD)
      then have "cls \<in> set (clss fr)"
        by (rule set_zip_leftD)
      moreover from that have "bx \<in> set (xyxy fr)"
        unfolding d by (rule set_zip_leftD)
      ultimately show ?thesis
        using known boxes by (simp add: list_all_iff d)
    qed
    then show ?thesis
      by (simp add: list_all_iff)
  qed
  then have names1: "list_all (\<lambda>d. hm_names s1 (fst (snd d)) \<noteq> None \<and> box_fits (fst d))
                       (zip (xyxy fr) (zip (clss fr) track_ids))"
    using c1 by (simp add: same_config_def nms)
  let ?res = "heatmap_loop lib s1 (zip (xyxy fr) (zip (clss fr) track_ids))"
  have "fst ?res = None \<and> (frame_fits fr s1 \<longrightarrow> frame_fits fr (snd ?res))"
    using ok1 _ names1 by (rule heatmap_loop_returns) (simp add: s1_def)
  with fit1 have none: "fst ?res = None" and fit: "frame_fits fr (snd ?res)"
    by simp_all
  have "same_config s1 (snd ?res)"
    by (rule heatmap_loop_config)
  with c1 have flags: "hm_env_check (snd ?res) = hm_env_check t"
      "hm_view_img (snd ?res) = hm_view_img t"
    by (simp_all add: same_config_def)
  show ?thesis
    using tracked hm none flags fit
    by (cases ?res)
       (simp add: generate_heatmap_def Let_def s0_def [symmetric] s1_def [symmetric])
qed

text \<open>
  A frame of another shape than the buffer ends in the error of line 200.
\<close>

lemma generate_heatmap_other_shape:
  assumes "initialized t" and "heatmap t = Some hm" and "(rows hm, cols hm) \<noteq> im0 fr"
    and "ids fr = Some []" and "xyxy fr = []"
  shows "fst (generate_heatmap lib fr t) = Inl Cv2Error"
  using assms by (simp add: generate_heatmap_def Let_def frame_fits_def decay_def)

end
